theory Spec2Isabelle
  imports Main "HOL-Library.Word" "HOL-Library.Sublist"
begin

unbundle bit_operations_syntax

section \<open>The boundary marshaling layer of binding/utils.h\<close>

text \<open>
  The header \<^verbatim>\<open>src/binding/utils.h\<close> is a flat set of helpers between the managed
  environment (N-API) and the native runtime (the TensorFlow C API). Each helper is
  embedded below as a function over explicit state: the environment handle carries the
  errors raised so far, the C heap carries the live \<^verbatim>\<open>malloc\<close> blocks, and a helper
  returns its C result together with the state it leaves behind.
\<close>

subsection \<open>Strings: \<^verbatim>\<open>std::string\<close> and \<^verbatim>\<open>split\<close>\<close>

text \<open>
  \<^verbatim>\<open>str.find(c, pos)\<close>: the first index at or after \<open>pos\<close> that holds \<open>c\<close>;
  \<open>None\<close> stands for \<^verbatim>\<open>std::string::npos\<close>.
\<close>

definition str_find :: "string \<Rightarrow> char \<Rightarrow> nat \<Rightarrow> nat option" where
  "str_find str c pos =
     (let k = length (takeWhile (\<lambda>x. x \<noteq> c) (drop pos str))
      in if pos + k < length str then Some (pos + k) else None)"

text \<open>
  \<^verbatim>\<open>str.substr(pos, n)\<close>: throws \<^verbatim>\<open>std::out_of_range\<close> (here \<open>None\<close>) when
  \<open>pos\<close> is beyond the end, and otherwise yields at most \<open>n\<close> characters from \<open>pos\<close>.
\<close>

definition substr :: "string \<Rightarrow> nat \<Rightarrow> nat \<Rightarrow> string option" where
  "substr str pos n = (if length str < pos then None else Some (take n (drop pos str)))"

text \<open>
  The body of the \<^verbatim>\<open>do { ... } while (pos < str.length() && prev < str.length())\<close>
  loop of \<^verbatim>\<open>split\<close>, entered with the current \<open>prev\<close> and the tokens pushed so far.
  The result is \<open>None\<close> when \<^verbatim>\<open>substr\<close> throws.
\<close>

function split_loop :: "string \<Rightarrow> nat \<Rightarrow> string list \<Rightarrow> string list option" where
  "split_loop str prev tokens =
     (let pos = (case str_find str CHR '','' prev of None \<Rightarrow> length str | Some p \<Rightarrow> p)
      in case substr str prev (pos - prev) of
           None \<Rightarrow> None
         | Some token \<Rightarrow>
             (let tokens' = (if token \<noteq> [] then tokens @ [token] else tokens);
                  prev' = pos + 1
              in if pos < length str \<and> prev' < length str
                 then split_loop str prev' tokens'
                 else Some tokens'))"
  by pat_completeness auto
termination
proof (relation "measure (\<lambda>(str, prev, tokens). length str - prev)")
  show "wf (measure (\<lambda>(str, prev, tokens). length str - prev))"
    by simp
next
  fix str :: string and prev :: nat and tokens :: "string list"
    and pos token tokens' prev'
  assume pos: "pos = (case str_find str CHR '','' prev of None \<Rightarrow> length str | Some p \<Rightarrow> p)"
    and sub: "substr str prev (pos - prev) = Some token"
    and prev': "prev' = pos + 1"
    and cond: "pos < length str \<and> prev' < length str"
  have "prev \<le> pos"
    using pos cond by (auto simp: str_find_def Let_def split: if_splits)
  then show "((str, prev', tokens'), (str, prev, tokens))
      \<in> measure (\<lambda>(str, prev, tokens). length str - prev)"
    using cond prev' by auto
qed

definition split :: "string \<Rightarrow> string list option" where
  "split str = split_loop str 0 []"

text \<open>
  The reading of the claim about \<^verbatim>\<open>split\<close>: the fields of a string are the maximal
  comma-free stretches between its commas (empty ones included), so that joining the
  fields with commas gives the string back; the tokens are the non-empty fields.
\<close>

fun comma_fields :: "string \<Rightarrow> string list" where
  "comma_fields [] = [[]]"
| "comma_fields (c # cs) =
     (if c = CHR '','' then [] # comma_fields cs
      else (case comma_fields cs of
              f # fs \<Rightarrow> (c # f) # fs
            | [] \<Rightarrow> [[c]]))"

fun join_commas :: "string list \<Rightarrow> string" where
  "join_commas [] = []"
| "join_commas [f] = f"
| "join_commas (f # g # fs) = f @ CHR '','' # join_commas (g # fs)"


subsection \<open>Formatting: \<^verbatim>\<open>vsnprintf\<close> into the 500-byte buffer\<close>

text \<open>
  \<^verbatim>\<open>%u\<close> prints an unsigned value in decimal, without leading zeros.
\<close>

definition digit_char :: "nat \<Rightarrow> char" where
  "digit_char d = ''0123456789'' ! d"

fun fmt_u :: "nat \<Rightarrow> string" where
  "fmt_u n = (if n < 10 then [digit_char n] else fmt_u (n div 10) @ [digit_char (n mod 10)])"

declare fmt_u.simps [simp del]

text \<open>
  \<^verbatim>\<open>std::vsnprintf(buffer, buf_size, ...)\<close> stores at most \<open>buf_size - 1\<close> characters of the
  formatted text and a terminator; \<open>formatted\<close> is the text with the conversions already
  filled in.
\<close>

definition vsnprintf :: "nat \<Rightarrow> string \<Rightarrow> string" where
  "vsnprintf buf_size formatted = take (buf_size - 1) formatted"

definition newline :: char where
  "newline = CHR 0x0A"

subsection \<open>The managed environment\<close>

text \<open>
  \<^verbatim>\<open>node_api.h\<close> is not part of the sources. The status and value-type enumerations list
  the documented N-API constants; \<^verbatim>\<open>napi_value\<close> and \<^verbatim>\<open>napi_callback_info\<close> are opaque
  handles, with \<open>0\<close> for \<^verbatim>\<open>nullptr\<close>.
\<close>

datatype napi_status =
    napi_ok | napi_invalid_arg | napi_object_expected | napi_string_expected
  | napi_name_expected | napi_function_expected | napi_number_expected
  | napi_boolean_expected | napi_array_expected | napi_generic_failure
  | napi_pending_exception | napi_cancelled

datatype napi_valuetype =
    napi_undefined | napi_null | napi_boolean | napi_number | napi_string
  | napi_symbol | napi_object | napi_function | napi_external | napi_bigint

type_synonym napi_value = nat
type_synonym napi_callback_info = nat

definition nullptr :: nat where
  "nullptr = 0"

text \<open>
  The environment handle \<^verbatim>\<open>napi_env\<close>. Its state, as far as the helpers touch it:
  \<open>thrown\<close>, the messages handed to \<^verbatim>\<open>napi_throw_error\<close>, oldest first, and
  \<open>last_error_message\<close>, the \<^verbatim>\<open>error_message\<close> that \<^verbatim>\<open>napi_get_last_error_info\<close>
  reports (\<open>None\<close> for a null pointer). The other fields are the boundary calls the
  helpers make through the handle, each returning its status and its out-parameter; what
  they compute is the environment's business, so they are parameters of the model.
  \<^verbatim>\<open>napi_get_value_string_utf8\<close> takes the buffer size (\<open>None\<close> for a null buffer) and
  returns the status, the bytes it wrote into the buffer and the length it reports.
\<close>

record napi_env =
  thrown :: "string list"
  last_error_message :: "string option"
  napi_typeof :: "napi_value \<Rightarrow> napi_status \<times> napi_valuetype"
  napi_is_array :: "napi_value \<Rightarrow> napi_status \<times> bool"
  napi_is_typedarray :: "napi_value \<Rightarrow> napi_status \<times> bool"
  napi_get_new_target :: "napi_callback_info \<Rightarrow> napi_status \<times> napi_value"
  napi_get_array_length :: "napi_value \<Rightarrow> napi_status \<times> 32 word"
  napi_get_element :: "napi_value \<Rightarrow> 32 word \<Rightarrow> napi_status \<times> napi_value"
  napi_get_value_int64 :: "napi_value \<Rightarrow> napi_status \<times> 64 word"
  napi_get_value_string_utf8 ::
    "napi_value \<Rightarrow> 64 word option \<Rightarrow> napi_status \<times> string \<times> 64 word"

definition napi_throw_error :: "napi_env \<Rightarrow> string \<Rightarrow> napi_env" where
  "napi_throw_error env msg = env\<lparr>thrown := thrown env @ [msg]\<rparr>"

text \<open>
  \<^verbatim>\<open>NapiThrowError(env, file, line_number, message, ...)\<close>. \<^verbatim>\<open>DEBUG\<close> is 0 unless the
  build defines it, so \<^verbatim>\<open>DEBUG_LOG\<close> does nothing and the origin is unused.
\<close>

definition NapiThrowError :: "napi_env \<Rightarrow> string \<Rightarrow> nat \<Rightarrow> string \<Rightarrow> napi_env" where
  "NapiThrowError env file line_number formatted =
     napi_throw_error env (vsnprintf 500 formatted)"

subsection \<open>Status translators\<close>

definition EnsureNapiOK :: "napi_env \<Rightarrow> napi_status \<Rightarrow> string \<Rightarrow> nat \<Rightarrow> bool \<times> napi_env" where
  "EnsureNapiOK env nstatus file line_number =
     (if nstatus \<noteq> napi_ok
      then (False,
            NapiThrowError env file line_number
              (''Invalid napi_status: ''
                 @ (case last_error_message env of Some m \<Rightarrow> m | None \<Rightarrow> ''unknown'')
                 @ [newline]))
      else (True, env))"

text \<open>
  The native runtime's status, from the C API (\<^verbatim>\<open>tensorflow/c/c_api.h\<close>): \<^verbatim>\<open>TF_Code\<close>
  is a C enumeration with \<^verbatim>\<open>TF_OK = 0\<close>, printed with \<^verbatim>\<open>%u\<close>, and a \<^verbatim>\<open>TF_Status\<close>
  holds a code and a message, read with \<^verbatim>\<open>TF_GetCode\<close> and \<^verbatim>\<open>TF_Message\<close>.
\<close>

type_synonym TF_Code = "32 word"

definition TF_OK :: TF_Code where
  "TF_OK = 0"

record TF_Status =
  tf_code :: TF_Code
  tf_message :: string

definition TF_GetCode :: "TF_Status \<Rightarrow> TF_Code" where
  "TF_GetCode s = tf_code s"

definition TF_Message :: "TF_Status \<Rightarrow> string" where
  "TF_Message s = tf_message s"

text \<open>
  Modelled from the spec: \<^verbatim>\<open>TF_AutoStatus\<close> is declared in \<^verbatim>\<open>tf_auto_status.h\<close>, which
  is not among the sources. It is the specification's status record, "a status code and
  an optional message", held in the field \<^verbatim>\<open>status\<close> that \<^verbatim>\<open>EnsureTFOK\<close> reads.
\<close>

record TF_AutoStatus =
  status :: TF_Status

definition EnsureTFOK :: "napi_env \<Rightarrow> TF_AutoStatus \<Rightarrow> string \<Rightarrow> nat \<Rightarrow> bool \<times> napi_env" where
  "EnsureTFOK env st file line_number =
     (let code = TF_GetCode (status st)
      in if code \<noteq> TF_OK
         then (False,
               NapiThrowError env file line_number
                 (''Invalid TF_Status: '' @ fmt_u (unat (TF_GetCode (status st)))
                    @ [newline] @ ''Message: '' @ TF_Message (status st)))
         else (True, env))"

subsection \<open>Argument validators\<close>

text \<open>
  Each validator returns its boolean and the environment it leaves. The
  \<^verbatim>\<open>ENSURE_NAPI_OK_RETVAL(env, status, false)\<close> at its head returns \<open>False\<close> as soon as
  the boundary call has failed.
\<close>

definition EnsureConstructorCall ::
    "napi_env \<Rightarrow> napi_callback_info \<Rightarrow> string \<Rightarrow> nat \<Rightarrow> bool \<times> napi_env" where
  "EnsureConstructorCall env info file line_number =
     (case napi_get_new_target env info of (nstatus, js_target) \<Rightarrow>
        (case EnsureNapiOK env nstatus ''binding/utils.h'' 102 of (ok, env1) \<Rightarrow>
           if \<not> ok then (False, env1)
           else (let is_target = (js_target \<noteq> nullptr)
                 in (is_target,
                     if \<not> is_target
                     then NapiThrowError env1 file line_number
                            ''Function not used as a constructor!''
                     else env1))))"

definition EnsureValueIsObject ::
    "napi_env \<Rightarrow> napi_value \<Rightarrow> string \<Rightarrow> nat \<Rightarrow> bool \<times> napi_env" where
  "EnsureValueIsObject env v file line_number =
     (case napi_typeof env v of (nstatus, type) \<Rightarrow>
        (case EnsureNapiOK env nstatus ''binding/utils.h'' 119 of (ok, env1) \<Rightarrow>
           if \<not> ok then (False, env1)
           else (let is_object = (type = napi_object)
                 in (is_object,
                     if \<not> is_object
                     then NapiThrowError env1 file line_number ''Argument is not an object!''
                     else env1))))"

definition EnsureValueIsString ::
    "napi_env \<Rightarrow> napi_value \<Rightarrow> string \<Rightarrow> nat \<Rightarrow> bool \<times> napi_env" where
  "EnsureValueIsString env v file line_number =
     (case napi_typeof env v of (nstatus, type) \<Rightarrow>
        (case EnsureNapiOK env nstatus ''binding/utils.h'' 135 of (ok, env1) \<Rightarrow>
           if \<not> ok then (False, env1)
           else (let is_string = (type = napi_string)
                 in (is_string,
                     if \<not> is_string
                     then NapiThrowError env1 file line_number ''Argument is not a string!''
                     else env1))))"

definition EnsureValueIsNumber ::
    "napi_env \<Rightarrow> napi_value \<Rightarrow> string \<Rightarrow> nat \<Rightarrow> bool \<times> napi_env" where
  "EnsureValueIsNumber env v file line_number =
     (case napi_typeof env v of (nstatus, type) \<Rightarrow>
        (case EnsureNapiOK env nstatus ''binding/utils.h'' 151 of (ok, env1) \<Rightarrow>
           if \<not> ok then (False, env1)
           else (let is_number = (type = napi_number)
                 in (is_number,
                     if \<not> is_number
                     then NapiThrowError env1 file line_number ''Argument is not a string!''
                     else env1))))"

definition EnsureValueIsArray ::
    "napi_env \<Rightarrow> napi_value \<Rightarrow> string \<Rightarrow> nat \<Rightarrow> bool \<times> napi_env" where
  "EnsureValueIsArray env v file line_number =
     (case napi_is_array env v of (nstatus, is_array) \<Rightarrow>
        (case EnsureNapiOK env nstatus ''binding/utils.h'' 167 of (ok, env1) \<Rightarrow>
           if \<not> ok then (False, env1)
           else (is_array,
                 if \<not> is_array
                 then NapiThrowError env1 file line_number ''Argument is not an array!''
                 else env1)))"

definition EnsureValueIsTypedArray ::
    "napi_env \<Rightarrow> napi_value \<Rightarrow> string \<Rightarrow> nat \<Rightarrow> bool \<times> napi_env" where
  "EnsureValueIsTypedArray env v file line_number =
     (case napi_is_typedarray env v of (nstatus, is_array) \<Rightarrow>
        (case EnsureNapiOK env nstatus ''binding/utils.h'' 183 of (ok, env1) \<Rightarrow>
           if \<not> ok then (False, env1)
           else (is_array,
                 if \<not> is_array
                 then NapiThrowError env1 file line_number ''Argument is not a typed-array!''
                 else env1)))"

definition EnsureValueIsLessThan ::
    "napi_env \<Rightarrow> 32 word \<Rightarrow> 32 word \<Rightarrow> string \<Rightarrow> nat \<Rightarrow> bool \<times> napi_env" where
  "EnsureValueIsLessThan env v max_value file line_number =
     (if v > max_value
      then (False,
            NapiThrowError env file line_number
              (''Argument is greater than max: '' @ fmt_u (unat v) @ '' > ''
                 @ fmt_u (unat max_value)))
      else (True, env))"

definition EnsureValueIsNotNull ::
    "napi_env \<Rightarrow> nat \<Rightarrow> string \<Rightarrow> nat \<Rightarrow> bool \<times> napi_env" where
  "EnsureValueIsNotNull env v file line_number =
     (let is_null = (v = nullptr)
      in (\<not> is_null,
          if is_null then NapiThrowError env file line_number ''Argument is null!'' else env))"

text \<open>
  The guard macros \<^verbatim>\<open>ENSURE_CONSTRUCTOR_CALL\<close> and \<^verbatim>\<open>ENSURE_CONSTRUCTOR_CALL_RETVAL\<close>
  at the head of an entry point: \<^verbatim>\<open>if (!EnsureConstructorCall(...)) return retval;\<close>,
  followed by the rest of the entry point, which runs from the environment the check
  left. The void form is the instance \<open>retval = ()\<close>.
\<close>

definition ENSURE_CONSTRUCTOR_CALL_RETVAL ::
    "napi_env \<Rightarrow> napi_callback_info \<Rightarrow> string \<Rightarrow> nat \<Rightarrow> 'r \<Rightarrow> (napi_env \<Rightarrow> 'r \<times> napi_env)
       \<Rightarrow> 'r \<times> napi_env" where
  "ENSURE_CONSTRUCTOR_CALL_RETVAL env info file line_number retval rest =
     (case EnsureConstructorCall env info file line_number of (ok, env1) \<Rightarrow>
        if \<not> ok then (retval, env1) else rest env1)"

subsection \<open>\<^verbatim>\<open>ExtractArrayShape\<close>\<close>

text \<open>
  The \<^verbatim>\<open>for (uint32_t i = 0; i < array_length; i++)\<close> loop, entered at \<open>i\<close> with the vector
  \<open>result\<close> as it stands. Every \<^verbatim>\<open>ENSURE_NAPI_OK\<close> returns from the function, leaving
  the vector as it is at that point.
\<close>

function ExtractArrayShape_loop ::
    "napi_env \<Rightarrow> napi_value \<Rightarrow> 32 word \<Rightarrow> 32 word \<Rightarrow> 64 word list
       \<Rightarrow> napi_env \<times> 64 word list" where
  "ExtractArrayShape_loop env array_value array_length i result =
     (if i < array_length
      then (case napi_get_element env array_value i of (nstatus, dimension_value) \<Rightarrow>
              (case EnsureNapiOK env nstatus ''binding/utils.h'' 247 of (ok, env1) \<Rightarrow>
                 if \<not> ok then (env1, result)
                 else (case napi_get_value_int64 env1 dimension_value of
                         (nstatus2, dimension) \<Rightarrow>
                           (case EnsureNapiOK env1 nstatus2 ''binding/utils.h'' 251 of
                              (ok2, env2) \<Rightarrow>
                                if \<not> ok2 then (env2, result)
                                else ExtractArrayShape_loop env2 array_value array_length
                                       (i + 1) (result @ [dimension])))))
      else (env, result))"
  by pat_completeness auto
termination
proof (relation "measure (\<lambda>(env, array_value, array_length, i, result).
                    unat array_length - unat i)")
  show "wf (measure (\<lambda>(env, array_value, array_length, i, result).
              unat array_length - unat i))"
    by simp
next
  fix env :: napi_env and array_value :: napi_value and array_length i :: "32 word"
    and result :: "64 word list" and x nstatus dimension_value xa ok env1 xb nstatus2
    dimension xc ok2 env2
  assume lt: "i < array_length"
  then have "unat i < unat array_length"
    by (simp add: word_less_nat_alt)
  moreover have "unat (i + 1) = unat i + 1"
    using lt by unat_arith
  ultimately show "((env2, array_value, array_length, i + 1, result @ [dimension]),
                    (env, array_value, array_length, i, result))
      \<in> measure (\<lambda>(env, array_value, array_length, i, result).
            unat array_length - unat i)"
    by simp
qed

declare ExtractArrayShape_loop.simps [simp del]

definition ExtractArrayShape ::
    "napi_env \<Rightarrow> napi_value \<Rightarrow> 64 word list \<Rightarrow> napi_env \<times> 64 word list" where
  "ExtractArrayShape env array_value result =
     (case napi_get_array_length env array_value of (nstatus, array_length) \<Rightarrow>
        (case EnsureNapiOK env nstatus ''binding/utils.h'' 242 of (ok, env1) \<Rightarrow>
           if \<not> ok then (env1, result)
           else ExtractArrayShape_loop env1 array_value array_length 0 result))"

subsection \<open>The C heap and \<^verbatim>\<open>GetStringParam\<close>\<close>

text \<open>
  The heap as far as \<^verbatim>\<open>GetStringParam\<close> sees it: the live \<^verbatim>\<open>malloc\<close> blocks, each
  with its address and size, and the bytes the allocator can still hand out.
  \<^verbatim>\<open>malloc\<close> returns \<^verbatim>\<open>nullptr\<close> when the request does not fit; \<^verbatim>\<open>free\<close> drops the
  block at the address.
\<close>

record c_heap =
  blocks :: "(nat \<times> nat) list"
  capacity :: nat

definition malloc :: "c_heap \<Rightarrow> nat \<Rightarrow> nat \<times> c_heap" where
  "malloc h n =
     (if capacity h < n then (nullptr, h)
      else (let p = Suc (fold max (map fst (blocks h)) 0)
            in (p, h\<lparr>blocks := (p, n) # blocks h, capacity := capacity h - n\<rparr>)))"

definition free :: "c_heap \<Rightarrow> nat \<Rightarrow> c_heap" where
  "free h p =
     h\<lparr>blocks := filter (\<lambda>b. fst b \<noteq> p) (blocks h),
       capacity := capacity h + sum_list (map snd (filter (\<lambda>b. fst b = p) (blocks h)))\<rparr>"

text \<open>
  \<^verbatim>\<open>GetStringParam(env, string_value, string)\<close> returns its status, the environment, the
  heap and the \<^verbatim>\<open>std::string\<close> it leaves. \<^verbatim>\<open>str_length\<close> is a \<^verbatim>\<open>size_t\<close>;
  \<^verbatim>\<open>string.assign(buffer, str_length)\<close> takes that many bytes of what the copy wrote.
\<close>

definition GetStringParam ::
    "napi_env \<Rightarrow> c_heap \<Rightarrow> napi_value \<Rightarrow> string \<Rightarrow> napi_status \<times> napi_env \<times> c_heap \<times> string" where
  "GetStringParam env heap string_value string =
     (case EnsureValueIsString env string_value ''binding/utils.h'' 280 of (ok, env1) \<Rightarrow>
      if \<not> ok then (napi_invalid_arg, env1, heap, string)
      else
     (case napi_get_value_string_utf8 env1 string_value None of (nstatus, unused, str_length) \<Rightarrow>
     (case EnsureNapiOK env1 nstatus ''binding/utils.h'' 287 of (ok, env2) \<Rightarrow>
      if \<not> ok then (nstatus, env2, heap, string)
      else
     (case malloc heap (unat (1 * (str_length + 1))) of (buffer, heap1) \<Rightarrow>
     (case EnsureValueIsNotNull env2 buffer ''binding/utils.h'' 290 of (ok, env3) \<Rightarrow>
      if \<not> ok then (napi_generic_failure, env3, heap1, string)
      else
     (case napi_get_value_string_utf8 env3 string_value (Some (str_length + 1)) of
        (nstatus, written, str_length) \<Rightarrow>
     (case EnsureNapiOK env3 nstatus ''binding/utils.h'' 294 of (ok, env4) \<Rightarrow>
      if \<not> ok then (nstatus, env4, heap1, string)
      else (napi_ok, env4, free heap1 buffer, take (unat str_length) written))))))))"

subsection \<open>Tensors\<close>

text \<open>
  The native runtime's tensor, as the C API (\<^verbatim>\<open>tensorflow/c/c_api.h\<close>, not part of the
  sources) presents it: an element type, the dimensions (\<^verbatim>\<open>int64_t\<close>) and the data
  buffer as bytes. \<^verbatim>\<open>TF_AllocateTensor\<close> takes the first \<open>num_dims\<close> dimensions and
  owns a fresh buffer of \<open>len\<close> bytes; \<^verbatim>\<open>TF_NewTensor\<close> takes the first \<open>len\<close> bytes of
  the buffer it is handed (the deallocator, called by the runtime later, is left out).
\<close>

datatype TF_DataType = TF_FLOAT | TF_DOUBLE | TF_INT32 | TF_UINT8 | TF_STRING | TF_INT64 | TF_BOOL

record TF_Tensor =
  tensor_dtype :: TF_DataType
  tensor_dims :: "64 word list"
  tensor_data :: "8 word list"

definition TF_AllocateTensor :: "TF_DataType \<Rightarrow> 64 word list \<Rightarrow> int \<Rightarrow> nat \<Rightarrow> TF_Tensor" where
  "TF_AllocateTensor dtype dims num_dims len =
     \<lparr>tensor_dtype = dtype, tensor_dims = take (nat num_dims) dims,
      tensor_data = replicate len 0\<rparr>"

definition TF_NewTensor ::
    "TF_DataType \<Rightarrow> 64 word list \<Rightarrow> int \<Rightarrow> 8 word list \<Rightarrow> nat \<Rightarrow> TF_Tensor" where
  "TF_NewTensor dtype dims num_dims data len =
     \<lparr>tensor_dtype = dtype, tensor_dims = take (nat num_dims) dims,
      tensor_data = take len data\<rparr>"

definition TF_NumDims :: "TF_Tensor \<Rightarrow> int" where
  "TF_NumDims t = int (length (tensor_dims t))"

definition TF_Dim :: "TF_Tensor \<Rightarrow> int \<Rightarrow> 64 word" where
  "TF_Dim t i = tensor_dims t ! nat i"

definition TF_TensorData :: "TF_Tensor \<Rightarrow> 8 word list" where
  "TF_TensorData t = tensor_data t"

text \<open>
  An \<^verbatim>\<open>int32_t\<close> in memory is four bytes, least significant first; an array of them is
  the bytes of its elements in order. \<open>int32s_of_bytes\<close> reads a buffer back as the
  \<^verbatim>\<open>int32_t\<close> values it holds.
\<close>

definition int32_bytes :: "32 word \<Rightarrow> 8 word list" where
  "int32_bytes w = [ucast w, ucast (drop_bit 8 w), ucast (drop_bit 16 w), ucast (drop_bit 24 w)]"

definition bytes_int32 :: "8 word \<Rightarrow> 8 word \<Rightarrow> 8 word \<Rightarrow> 8 word \<Rightarrow> 32 word" where
  "bytes_int32 b0 b1 b2 b3 =
     ucast b0 OR push_bit 8 (ucast b1) OR push_bit 16 (ucast b2) OR push_bit 24 (ucast b3)"

definition int32_array_bytes :: "32 word list \<Rightarrow> 8 word list" where
  "int32_array_bytes values = concat (map int32_bytes values)"

fun int32s_of_bytes :: "8 word list \<Rightarrow> 32 word list" where
  "int32s_of_bytes (b0 # b1 # b2 # b3 # rest) = bytes_int32 b0 b1 b2 b3 # int32s_of_bytes rest"
| "int32s_of_bytes rest = []"

text \<open>
  \<^verbatim>\<open>memcpy(dst, src, n)\<close> overwrites the first \<open>n\<close> bytes of \<open>dst\<close> with those of \<open>src\<close>;
  reading or writing past either buffer is undefined behaviour, here \<open>None\<close>.
\<close>

definition memcpy :: "8 word list \<Rightarrow> 8 word list \<Rightarrow> nat \<Rightarrow> 8 word list option" where
  "memcpy dst src n =
     (if n \<le> length src \<and> n \<le> length dst then Some (take n src @ drop n dst) else None)"

text \<open>
  \<^verbatim>\<open>GetTensorNumElements\<close>: the loop \<^verbatim>\<open>for (int i = 0; i < TF_NumDims(tensor); ++i)\<close>
  over a \<^verbatim>\<open>size_t\<close> accumulator, which wraps at \<open>2 ^ 64\<close>.
\<close>

function GetTensorNumElements_loop :: "TF_Tensor \<Rightarrow> int \<Rightarrow> 64 word \<Rightarrow> 64 word" where
  "GetTensorNumElements_loop tensor i ret =
     (if i < TF_NumDims tensor
      then GetTensorNumElements_loop tensor (i + 1) (ret * TF_Dim tensor i)
      else ret)"
  by pat_completeness auto
termination
  by (relation "measure (\<lambda>(tensor, i, ret). nat (TF_NumDims tensor - i))") auto

declare GetTensorNumElements_loop.simps [simp del]

definition GetTensorNumElements :: "TF_Tensor \<Rightarrow> 64 word" where
  "GetTensorNumElements tensor = GetTensorNumElements_loop tensor 0 1"

text \<open>
  \<^verbatim>\<open>Int32Tensor(dims, num_dims, values)\<close>. The loop multiplies the \<^verbatim>\<open>int64_t\<close>
  dimensions (two's complement, wrapping at \<open>2 ^ 64\<close>); reading \<^verbatim>\<open>dims[i]\<close> past the
  array is undefined behaviour, here \<open>None\<close>. The byte count
  \<^verbatim>\<open>sizeof(int32_t) * num_values\<close> is computed in \<^verbatim>\<open>size_t\<close>.
\<close>

function Int32Tensor_loop :: "64 word list \<Rightarrow> int \<Rightarrow> int \<Rightarrow> 64 word \<Rightarrow> 64 word option" where
  "Int32Tensor_loop dims num_dims i num_values =
     (if i < num_dims
      then (if 0 \<le> i \<and> nat i < length dims
            then Int32Tensor_loop dims num_dims (i + 1) (num_values * dims ! nat i)
            else None)
      else Some num_values)"
  by pat_completeness auto
termination
  by (relation "measure (\<lambda>(dims, num_dims, i, num_values). nat (num_dims - i))") auto

declare Int32Tensor_loop.simps [simp del]

definition Int32Tensor :: "64 word list \<Rightarrow> int \<Rightarrow> 32 word list \<Rightarrow> TF_Tensor option" where
  "Int32Tensor dims num_dims values =
     (case Int32Tensor_loop dims num_dims 0 1 of
        None \<Rightarrow> None
      | Some num_values \<Rightarrow>
          (let len = unat (4 * num_values);
               t = TF_AllocateTensor TF_INT32 dims num_dims len
           in case memcpy (TF_TensorData t) (int32_array_bytes values) len of
                None \<Rightarrow> None
              | Some data \<Rightarrow> Some (t\<lparr>tensor_data := data\<rparr>)))"

text \<open>The overload for a \<^verbatim>\<open>std::vector<int32_t>\<close>: rank 1, one dimension of its size.\<close>

definition Int32Tensor_vector :: "32 word list \<Rightarrow> TF_Tensor option" where
  "Int32Tensor_vector values = Int32Tensor [of_nat (length values)] 1 values"

text \<open>The overload for one \<^verbatim>\<open>int32_t\<close>: rank 0, a buffer of \<^verbatim>\<open>sizeof(int32_t)\<close> bytes.\<close>

definition Int32Tensor_scalar :: "32 word \<Rightarrow> TF_Tensor" where
  "Int32Tensor_scalar v =
     (let num_bytes = 4; values = int32_array_bytes [v]
      in TF_NewTensor TF_INT32 [] 0 values num_bytes)"

subsection \<open>The claims' vocabulary\<close>

text \<open>
  The message format the specification gives for both status domains:
  \<^verbatim>\<open>"Invalid <status-kind>: <code>\nMessage: <message>"\<close>.
\<close>

definition uniform_format :: "string \<Rightarrow> string \<Rightarrow> string \<Rightarrow> string" where
  "uniform_format kind code msg =
     ''Invalid '' @ kind @ '': '' @ code @ [newline] @ ''Message: '' @ msg"

text \<open>
  For an array handle: whether element \<open>i\<close> converts (both boundary calls succeed), and
  the 64-bit integer it is coerced to.
\<close>

definition convertible :: "napi_env \<Rightarrow> napi_value \<Rightarrow> 32 word \<Rightarrow> bool" where
  "convertible env array_value i \<longleftrightarrow>
     fst (napi_get_element env array_value i) = napi_ok \<and>
     fst (napi_get_value_int64 env (snd (napi_get_element env array_value i))) = napi_ok"

definition coerced :: "napi_env \<Rightarrow> napi_value \<Rightarrow> 32 word \<Rightarrow> 64 word" where
  "coerced env array_value i =
     snd (napi_get_value_int64 env (snd (napi_get_element env array_value i)))"

definition indices :: "nat \<Rightarrow> 32 word list" where
  "indices n = map of_nat [0..<n]"

text \<open>
  The environment after a boundary-call failure has been raised: one more thrown error,
  the message \<^verbatim>\<open>EnsureNapiOK\<close> formats, as the 500-byte buffer holds it.
\<close>

definition raise_napi_failure :: "napi_env \<Rightarrow> napi_env" where
  "raise_napi_failure env =
     env\<lparr>thrown := thrown env @
       [take 499 (''Invalid napi_status: ''
          @ (case last_error_message env of Some m \<Rightarrow> m | None \<Rightarrow> ''unknown'')
          @ [newline])]\<rparr>"

subsection \<open>A sample environment\<close>

text \<open>
  Concrete inputs for evaluating the helpers. Handle 1 is the string \<^verbatim>\<open>"abc"\<close>; handle 2
  the array \<^verbatim>\<open>[2, 3]\<close> and handle 3 the array \<^verbatim>\<open>[2, "x", 3]\<close>, with element handles 10
  (the number 2), 11 (the number 3) and 12 (the string \<^verbatim>\<open>"x"\<close>); handle 4 is a plain
  object. Callback info 1 is a call with \<^verbatim>\<open>new\<close>, callback info 2 a plain call.
\<close>

definition sample_env :: napi_env where
  "sample_env =
     \<lparr>thrown = [],
      last_error_message = Some ''A number was expected'',
      napi_typeof = (\<lambda>v. if v = 10 \<or> v = 11 then (napi_ok, napi_number)
                          else if v = 1 \<or> v = 12 then (napi_ok, napi_string)
                          else if v = 2 \<or> v = 3 \<or> v = 4 then (napi_ok, napi_object)
                          else (napi_ok, napi_undefined)),
      napi_is_array = (\<lambda>v. (napi_ok, v = 2 \<or> v = 3)),
      napi_is_typedarray = (\<lambda>v. (napi_ok, False)),
      napi_get_new_target = (\<lambda>info. if info = 1 then (napi_ok, 4) else (napi_ok, nullptr)),
      napi_get_array_length = (\<lambda>v. if v = 2 then (napi_ok, 2)
                                    else if v = 3 then (napi_ok, 3)
                                    else (napi_array_expected, 0)),
      napi_get_element = (\<lambda>v i. if v = 2 \<and> i = 0 then (napi_ok, 10)
                                 else if v = 2 \<and> i = 1 then (napi_ok, 11)
                                 else if v = 3 \<and> i = 0 then (napi_ok, 10)
                                 else if v = 3 \<and> i = 1 then (napi_ok, 12)
                                 else if v = 3 \<and> i = 2 then (napi_ok, 11)
                                 else (napi_ok, 0)),
      napi_get_value_int64 = (\<lambda>v. if v = 10 then (napi_ok, 2)
                                   else if v = 11 then (napi_ok, 3)
                                   else (napi_number_expected, 0)),
      napi_get_value_string_utf8 =
        (\<lambda>v buf. if v = 1
                  then (case buf of
                          None \<Rightarrow> (napi_ok, [], 3)
                        | Some n \<Rightarrow> (napi_ok, take (unat n - 1) ''abc'',
                                     of_nat (min (unat n - 1) 3)))
                  else (napi_string_expected, [], 0))\<rparr>"

text \<open>The same environment, except that copying a string into a buffer fails.\<close>

definition copy_failing_env :: napi_env where
  "copy_failing_env =
     sample_env\<lparr>napi_get_value_string_utf8 :=
       (\<lambda>v buf. case buf of
                   None \<Rightarrow> (napi_ok, [], 3)
                 | Some n \<Rightarrow> (napi_generic_failure, [], 0))\<rparr>"

text \<open>
  Two runtime statuses: \<^verbatim>\<open>TF_INVALID_ARGUMENT\<close> (code 3) with a short message, and the
  same code with a message of 500 characters.
\<close>

definition short_status :: TF_AutoStatus where
  "short_status = \<lparr>status = \<lparr>tf_code = 3, tf_message = ''bad shape''\<rparr>\<rparr>"

definition long_status :: TF_AutoStatus where
  "long_status = \<lparr>status = \<lparr>tf_code = 3, tf_message = replicate 500 CHR ''x''\<rparr>\<rparr>"

section \<open>Properties\<close>

subsection \<open>\<^verbatim>\<open>split\<close>\<close>

lemma comma_fields_nonempty: "comma_fields s \<noteq> []"
  by (induction s) (auto split: list.splits)

lemma join_comma_fields: "join_commas (comma_fields s) = s"
proof (induction s)
  case Nil show ?case by simp
next
  case (Cons c cs)
  obtain f fs where fs: "comma_fields cs = f # fs"
    using comma_fields_nonempty [of cs] by (cases "comma_fields cs") auto
  show ?case using Cons fs by (cases fs) auto
qed

lemma comma_fields_no_comma: "f \<in> set (comma_fields s) \<Longrightarrow> CHR '','' \<notin> set f"
proof (induction s arbitrary: f)
  case Nil then show ?case by simp
next
  case (Cons c cs)
  show ?case
  proof (cases "c = CHR '',''")
    case True
    with Cons show ?thesis by auto
  next
    case False
    show ?thesis
    proof (cases "comma_fields cs")
      case Nil
      with Cons.prems False show ?thesis by simp
    next
      case (Cons g gs)
      with Cons.prems Cons.IH False show ?thesis by auto
    qed
  qed
qed

lemma comma_fields_no_comma_in: "CHR '','' \<notin> set s \<Longrightarrow> comma_fields s = [s]"
  by (induction s) auto

lemma comma_fields_append:
  "CHR '','' \<notin> set t \<Longrightarrow> comma_fields (t @ CHR '','' # r) = t # comma_fields r"
  by (induction t) auto

lemma str_find_None:
  assumes "str_find str c prev = None" and "prev \<le> length str"
  shows "c \<notin> set (drop prev str)"
proof -
  let ?t = "takeWhile (\<lambda>x. x \<noteq> c) (drop prev str)"
  let ?d = "dropWhile (\<lambda>x. x \<noteq> c) (drop prev str)"
  have "length ?t \<le> length (drop prev str)"
    by (rule length_takeWhile_le)
  with assms have "length ?t = length (drop prev str)"
    by (simp add: str_find_def Let_def split: if_splits)
  moreover have "length ?t + length ?d = length (drop prev str)"
    unfolding length_append [symmetric] by simp
  ultimately have "?d = []"
    by simp
  then show ?thesis
    by (auto simp: dropWhile_eq_Nil_conv)
qed

lemma str_find_Some:
  assumes "str_find str c prev = Some p"
  shows "prev \<le> p" and "p < length str"
    and "c \<notin> set (take (p - prev) (drop prev str))"
    and "drop prev str = take (p - prev) (drop prev str) @ c # drop (p + 1) str"
proof -
  let ?t = "takeWhile (\<lambda>x. x \<noteq> c) (drop prev str)"
  let ?d = "dropWhile (\<lambda>x. x \<noteq> c) (drop prev str)"
  have p: "p = prev + length ?t" and lt: "p < length str"
    using assms by (auto simp: str_find_def Let_def split: if_splits)
  show "prev \<le> p" using p by simp
  show "p < length str" by (rule lt)
  have td: "?t @ ?d = drop prev str" by simp
  from td [unfolded append_eq_conv_conj]
  have t: "?t = take (length ?t) (drop prev str)"
    and d: "?d = drop (length ?t) (drop prev str)" by blast+
  have tp: "take (p - prev) (drop prev str) = ?t"
    using t p by simp
  have "c \<notin> set ?t"
    by (auto dest: set_takeWhileD)
  then show "c \<notin> set (take (p - prev) (drop prev str))"
    using tp by simp
  have d': "?d = drop p str" using d p by (simp add: add.commute)
  with lt have ne: "?d \<noteq> []" by simp
  then have "hd ?d = c" using hd_dropWhile [of "\<lambda>x. x \<noteq> c" "drop prev str"] by auto
  moreover have "tl ?d = drop (p + 1) str" using d' by (simp add: drop_Suc tl_drop)
  ultimately have "?d = c # drop (p + 1) str" using ne by (cases ?d) auto
  with td tp show "drop prev str = take (p - prev) (drop prev str) @ c # drop (p + 1) str"
    by simp
qed

lemma split_loop_fields:
  "prev \<le> length str \<Longrightarrow>
     split_loop str prev tokens =
       Some (tokens @ filter (\<lambda>t. t \<noteq> []) (comma_fields (drop prev str)))"
proof (induction str prev tokens rule: split_loop.induct)
  case (1 str prev tokens)
  show ?case
  proof (cases "str_find str CHR '','' prev")
    case None
    from str_find_None [OF None "1.prems"]
    have cf: "comma_fields (drop prev str) = [drop prev str]"
      by (rule comma_fields_no_comma_in)
    show ?thesis
      using None "1.prems" cf
      by (subst split_loop.simps) (simp add: substr_def Let_def)
  next
    case (Some p)
    note f = str_find_Some [OF Some]
    let ?tok = "take (p - prev) (drop prev str)"
    have cf: "comma_fields (drop prev str) = ?tok # comma_fields (drop (p + 1) str)"
      by (subst f(4)) (rule comma_fields_append [OF f(3)])
    show ?thesis
    proof (cases "p + 1 < length str")
      case True
      have sub: "substr str prev (p - prev) = Some ?tok"
        using "1.prems" by (simp add: substr_def)
      have IH: "split_loop str (p + 1) (if ?tok \<noteq> [] then tokens @ [?tok] else tokens) =
          Some ((if ?tok \<noteq> [] then tokens @ [?tok] else tokens)
                 @ filter (\<lambda>t. t \<noteq> []) (comma_fields (drop (p + 1) str)))"
        using "1.IH" [OF _ sub refl refl] Some f(2) True by simp
      show ?thesis
        using Some sub f(2) True IH cf
        by (subst split_loop.simps) (simp add: Let_def)
    next
      case False
      then have "drop (p + 1) str = []" by simp
      then have cf': "comma_fields (drop prev str) = [?tok, []]"
        using cf by simp
      show ?thesis
        using Some "1.prems" f(2) False cf'
        by (subst split_loop.simps) (simp add: substr_def Let_def)
    qed
  qed
qed


text \<open>
  C10. \<^verbatim>\<open>split\<close> never throws and returns, in order, exactly the non-empty fields of
  its input, where the fields are the comma-free stretches that give the input back when
  joined with commas. So every token is non-empty and holds no comma, empty stretches
  (between consecutive commas, before a leading comma, after a trailing one) give no
  token, and a non-empty input without a comma comes back as the one token.
\<close>

theorem split_nonempty_fields:
  "split str = Some (filter (\<lambda>t. t \<noteq> []) (comma_fields str))
   \<and> join_commas (comma_fields str) = str
   \<and> (\<forall>f \<in> set (comma_fields str). CHR '','' \<notin> set f)
   \<and> (\<forall>ts. split str = Some ts \<longrightarrow> (\<forall>t \<in> set ts. t \<noteq> [] \<and> CHR '','' \<notin> set t))
   \<and> (CHR '','' \<notin> set str \<and> str \<noteq> [] \<longrightarrow> split str = Some [str])"
proof -
  have eq: "split str = Some (filter (\<lambda>t. t \<noteq> []) (comma_fields str))"
    using split_loop_fields [of 0 str "[]"] by (simp add: split_def)
  have free: "\<forall>f \<in> set (comma_fields str). CHR '','' \<notin> set f"
    using comma_fields_no_comma by blast
  have toks: "\<forall>ts. split str = Some ts \<longrightarrow> (\<forall>t \<in> set ts. t \<noteq> [] \<and> CHR '','' \<notin> set t)"
  proof (intro allI impI ballI)
    fix ts t
    assume "split str = Some ts" and "t \<in> set ts"
    then have "t \<in> set (filter (\<lambda>t. t \<noteq> []) (comma_fields str))"
      using eq by simp
    then show "t \<noteq> [] \<and> CHR '','' \<notin> set t"
      using comma_fields_no_comma [of t str] by simp
  qed
  have single: "CHR '','' \<notin> set str \<and> str \<noteq> [] \<longrightarrow> split str = Some [str]"
    using eq by (simp add: comma_fields_no_comma_in)
  from eq join_comma_fields [of str] free toks single show ?thesis
    by (intro conjI)
qed

theorem split_nonempty_fields_witness:
  "split '',a,,bc,'' = Some [''a'', ''bc''] \<and> split ''abc'' = Some [''abc'']"
proof -
  have "split '',a,,bc,'' = Some (filter (\<lambda>t. t \<noteq> []) (comma_fields '',a,,bc,''))"
    using split_nonempty_fields [of "'',a,,bc,''"] by (rule conjunct1)
  moreover have "CHR '','' \<notin> set ''abc'' \<and> ''abc'' \<noteq> [] \<longrightarrow> split ''abc'' = Some [''abc'']"
    using split_nonempty_fields [of "''abc''"] by (elim conjE)
  ultimately show ?thesis
    by simp
qed

subsection \<open>Messages and validators\<close>

lemma fmt_u_length: "0 < k \<Longrightarrow> n < 10 ^ k \<Longrightarrow> length (fmt_u n) \<le> k"
proof (induction k arbitrary: n)
  case 0 then show ?case by simp
next
  case (Suc k)
  show ?case
  proof (cases "n < 10")
    case True
    then show ?thesis by (subst fmt_u.simps) simp
  next
    case False
    then have k: "0 < k" using Suc.prems by (cases k) auto
    have "n div 10 < 10 ^ k" using Suc.prems by (simp add: less_mult_imp_div_less mult.commute)
    from Suc.IH [OF k this] False show ?thesis by (subst fmt_u.simps) simp
  qed
qed

lemma fmt_u_word32_length: "length (fmt_u (unat (w :: 32 word))) \<le> 10"
proof -
  have "unat w < 2 ^ 32" using unsigned_less [of w] by simp
  then have "unat w < 10 ^ 10" by simp
  then show ?thesis using fmt_u_length [of 10 "unat w"] by simp
qed

lemma EnsureNapiOK_ok [simp]: "EnsureNapiOK env napi_ok file line_number = (True, env)"
  by (simp add: EnsureNapiOK_def)

lemma EnsureNapiOK_fail:
  "nstatus \<noteq> napi_ok \<Longrightarrow>
     EnsureNapiOK env nstatus file line_number =
       (False, env\<lparr>thrown := thrown env @
          [take 499 (''Invalid napi_status: ''
             @ (case last_error_message env of Some m \<Rightarrow> m | None \<Rightarrow> ''unknown'')
             @ [newline])]\<rparr>)"
  by (simp add: EnsureNapiOK_def NapiThrowError_def napi_throw_error_def vsnprintf_def)

lemma EnsureTFOK_ok: "TF_GetCode (status st) = TF_OK \<Longrightarrow> EnsureTFOK env st file line_number = (True, env)"
  by (simp add: EnsureTFOK_def)

lemma EnsureTFOK_fail:
  "TF_GetCode (status st) \<noteq> TF_OK \<Longrightarrow>
     EnsureTFOK env st file line_number =
       (False, env\<lparr>thrown := thrown env @
          [take 499 (uniform_format ''TF_Status'' (fmt_u (unat (TF_GetCode (status st))))
                       (TF_Message (status st)))]\<rparr>)"
  by (simp add: EnsureTFOK_def NapiThrowError_def napi_throw_error_def vsnprintf_def
      uniform_format_def Let_def)

text \<open>
  C6. For all unsigned 32-bit \<open>v\<close> and \<open>max_value\<close>, \<^verbatim>\<open>EnsureValueIsLessThan\<close> returns
  false exactly when \<open>v\<close> is strictly greater than \<open>max_value\<close>, and then raises the range
  failure \<^verbatim>\<open>"Argument is greater than max: v > max"\<close> (which always fits the buffer);
  when \<open>v\<close> is at most \<open>max_value\<close> it returns true and leaves the environment as it was.
\<close>

theorem EnsureValueIsLessThan_range:
  "(\<not> fst (EnsureValueIsLessThan env v max_value file line_number) \<longleftrightarrow> max_value < v)
   \<and> (max_value < v \<longrightarrow>
        snd (EnsureValueIsLessThan env v max_value file line_number) =
          env\<lparr>thrown := thrown env @
            [''Argument is greater than max: '' @ fmt_u (unat v) @ '' > ''
               @ fmt_u (unat max_value)]\<rparr>)
   \<and> (v \<le> max_value \<longrightarrow>
        EnsureValueIsLessThan env v max_value file line_number = (True, env))"
proof -
  have "length (''Argument is greater than max: '' @ fmt_u (unat v) @ '' > ''
               @ fmt_u (unat max_value)) \<le> 499"
    using fmt_u_word32_length [of v] fmt_u_word32_length [of max_value] by simp
  then show ?thesis
    by (auto simp: EnsureValueIsLessThan_def NapiThrowError_def napi_throw_error_def
        vsnprintf_def)
qed

theorem EnsureValueIsLessThan_range_witness:
  "EnsureValueIsLessThan sample_env 5 3 ''binding/tfjs_backend.cc'' 1 =
     (False, sample_env\<lparr>thrown := [''Argument is greater than max: 5 > 3'']\<rparr>)
   \<and> EnsureValueIsLessThan sample_env 3 3 ''binding/tfjs_backend.cc'' 1 = (True, sample_env)"
proof -
  let ?r = "EnsureValueIsLessThan sample_env 5 3 ''binding/tfjs_backend.cc'' 1"
  note t = EnsureValueIsLessThan_range [of sample_env 5 3 "''binding/tfjs_backend.cc''" 1]
  have lt: "(3 :: 32 word) < 5" by simp
  have f: "\<not> fst ?r" using t lt by blast
  have s: "snd ?r = sample_env\<lparr>thrown := thrown sample_env @
            [''Argument is greater than max: '' @ fmt_u (unat (5 :: 32 word)) @ '' > ''
               @ fmt_u (unat (3 :: 32 word))]\<rparr>"
    using t lt by blast
  have th: "thrown sample_env = []" by (simp add: sample_env_def)
  have d: "fmt_u 5 = ''5''" "fmt_u 3 = ''3''"
    by (simp_all add: fmt_u.simps digit_char_def)
  have "?r = (False, sample_env\<lparr>thrown := [''Argument is greater than max: 5 > 3'']\<rparr>)"
    using f s th d by (cases ?r) simp
  moreover have "EnsureValueIsLessThan sample_env 3 3 ''binding/tfjs_backend.cc'' 1 = (True, sample_env)"
    using EnsureValueIsLessThan_range [of sample_env 3 3 "''binding/tfjs_backend.cc''" 1] by simp
  ultimately show ?thesis by simp
qed


lemma EnsureConstructorCall_absent:
  "napi_get_new_target env info = (napi_ok, nullptr) \<Longrightarrow>
     EnsureConstructorCall env info file line_number =
       (False, env\<lparr>thrown := thrown env @ [''Function not used as a constructor!'']\<rparr>)"
  by (simp add: EnsureConstructorCall_def NapiThrowError_def napi_throw_error_def vsnprintf_def)

lemma EnsureConstructorCall_present:
  "napi_get_new_target env info = (napi_ok, t) \<Longrightarrow> t \<noteq> nullptr \<Longrightarrow>
     EnsureConstructorCall env info file line_number = (True, env)"
  by (simp add: EnsureConstructorCall_def)

text \<open>
  C7. When the call carries no \<^verbatim>\<open>new.target\<close> (the boundary call succeeds with a null
  target), \<^verbatim>\<open>EnsureConstructorCall\<close> raises the constructor-misuse failure and returns
  false, and an entry point guarded by the macro returns at once with its failure value:
  the rest of the entry point is not run. With a target it returns true and raises
  nothing, and the rest runs from the unchanged environment. Whenever the check returns
  false, for whatever reason, the rest is not run.
\<close>

theorem EnsureConstructorCall_guard:
  "(napi_get_new_target env info = (napi_ok, nullptr) \<longrightarrow>
      EnsureConstructorCall env info file line_number =
        (False, env\<lparr>thrown := thrown env @ [''Function not used as a constructor!'']\<rparr>)
      \<and> ENSURE_CONSTRUCTOR_CALL_RETVAL env info file line_number retval rest =
        (retval, env\<lparr>thrown := thrown env @ [''Function not used as a constructor!'']\<rparr>))
   \<and> (\<forall>t. napi_get_new_target env info = (napi_ok, t) \<and> t \<noteq> nullptr \<longrightarrow>
      EnsureConstructorCall env info file line_number = (True, env)
      \<and> ENSURE_CONSTRUCTOR_CALL_RETVAL env info file line_number retval rest = rest env)
   \<and> (\<not> fst (EnsureConstructorCall env info file line_number) \<longrightarrow>
      ENSURE_CONSTRUCTOR_CALL_RETVAL env info file line_number retval rest =
        (retval, snd (EnsureConstructorCall env info file line_number)))"
proof (intro conjI impI allI)
  assume a: "napi_get_new_target env info = (napi_ok, nullptr)"
  show "EnsureConstructorCall env info file line_number =
        (False, env\<lparr>thrown := thrown env @ [''Function not used as a constructor!'']\<rparr>)"
    by (rule EnsureConstructorCall_absent [OF a])
  then show "ENSURE_CONSTRUCTOR_CALL_RETVAL env info file line_number retval rest =
        (retval, env\<lparr>thrown := thrown env @ [''Function not used as a constructor!'']\<rparr>)"
    by (simp add: ENSURE_CONSTRUCTOR_CALL_RETVAL_def)
next
  fix t
  assume p: "napi_get_new_target env info = (napi_ok, t) \<and> t \<noteq> nullptr"
  then show ok: "EnsureConstructorCall env info file line_number = (True, env)"
    by (simp add: EnsureConstructorCall_present)
  then show "ENSURE_CONSTRUCTOR_CALL_RETVAL env info file line_number retval rest = rest env"
    by (simp add: ENSURE_CONSTRUCTOR_CALL_RETVAL_def)
next
  assume "\<not> fst (EnsureConstructorCall env info file line_number)"
  then show "ENSURE_CONSTRUCTOR_CALL_RETVAL env info file line_number retval rest =
        (retval, snd (EnsureConstructorCall env info file line_number))"
    by (cases "EnsureConstructorCall env info file line_number")
      (simp add: ENSURE_CONSTRUCTOR_CALL_RETVAL_def)
qed

theorem EnsureConstructorCall_guard_witness:
  "EnsureConstructorCall sample_env 2 ''binding/tfe_context_env.cc'' 1 =
     (False, sample_env\<lparr>thrown := [''Function not used as a constructor!'']\<rparr>)
   \<and> ENSURE_CONSTRUCTOR_CALL_RETVAL sample_env 2 ''binding/tfe_context_env.cc'' 1 (0 :: nat)
        (\<lambda>e. (1, e)) =
     (0, sample_env\<lparr>thrown := [''Function not used as a constructor!'']\<rparr>)
   \<and> ENSURE_CONSTRUCTOR_CALL_RETVAL sample_env 1 ''binding/tfe_context_env.cc'' 1 (0 :: nat)
        (\<lambda>e. (1, e)) = (1, sample_env)"
proof -
  have a: "napi_get_new_target sample_env 2 = (napi_ok, nullptr)"
    by (simp add: sample_env_def)
  have p: "napi_get_new_target sample_env 1 = (napi_ok, 4) \<and> 4 \<noteq> nullptr"
    by (simp add: sample_env_def nullptr_def)
  have th: "thrown sample_env = []"
    by (simp add: sample_env_def)
  note g2 = EnsureConstructorCall_guard [of sample_env 2 "''binding/tfe_context_env.cc''" 1
      "0 :: nat" "\<lambda>e. (1, e)"]
  note g1 = EnsureConstructorCall_guard [of sample_env 1 "''binding/tfe_context_env.cc''" 1
      "0 :: nat" "\<lambda>e. (1, e)"]
  from g2 a th have
    "EnsureConstructorCall sample_env 2 ''binding/tfe_context_env.cc'' 1 =
       (False, sample_env\<lparr>thrown := [''Function not used as a constructor!'']\<rparr>)"
    "ENSURE_CONSTRUCTOR_CALL_RETVAL sample_env 2 ''binding/tfe_context_env.cc'' 1 (0 :: nat)
        (\<lambda>e. (1, e)) =
       (0, sample_env\<lparr>thrown := [''Function not used as a constructor!'']\<rparr>)"
    by simp_all
  moreover from g1 p have
    "ENSURE_CONSTRUCTOR_CALL_RETVAL sample_env 1 ''binding/tfe_context_env.cc'' 1 (0 :: nat)
        (\<lambda>e. (1, e)) = (1, sample_env)"
    by blast
  ultimately show ?thesis by simp
qed

text \<open>
  C9. The number validator, rejecting a plain object (handle 4 of the sample environment),
  raises \<^verbatim>\<open>"Argument is not a string!"\<close>: the message of the string validator, which
  raises the very same text on the same value.
\<close>

theorem EnsureValueIsNumber_wrong_message:
  "EnsureValueIsNumber sample_env 4 ''binding/tfjs_backend.cc'' 1 =
     (False, sample_env\<lparr>thrown := [''Argument is not a string!'']\<rparr>)
   \<and> EnsureValueIsString sample_env 4 ''binding/tfjs_backend.cc'' 1 =
     (False, sample_env\<lparr>thrown := [''Argument is not a string!'']\<rparr>)"
proof -
  have t: "napi_typeof sample_env 4 = (napi_ok, napi_object)"
    by (simp add: sample_env_def)
  have th: "thrown sample_env = []"
    by (simp add: sample_env_def)
  show ?thesis
    using t th
    by (simp add: EnsureValueIsNumber_def EnsureValueIsString_def NapiThrowError_def
        napi_throw_error_def vsnprintf_def)
qed


subsection \<open>Status translators\<close>

lemma thrown_sample_env: "thrown sample_env = []"
  by (simp add: sample_env_def)

lemma take_keep:
  "length a + length c \<le> n \<Longrightarrow> take n (a @ c @ r) = a @ c @ take (n - length a - length c) r"
  by simp

lemma uniform_format_split:
  "uniform_format kind code msg =
     (''Invalid '' @ kind @ '': '') @ code @ ([newline] @ ''Message: '' @ msg)"
  by (simp add: uniform_format_def)

lemma uniform_format_length:
  "length (uniform_format kind code msg) = 20 + length kind + length code + length msg"
  by (simp add: uniform_format_def)

lemma uniform_format_fits:
  assumes "length kind + length code + length msg \<le> 479"
  shows "take 499 (uniform_format kind code msg) = uniform_format kind code msg"
  using assms by (simp add: uniform_format_length)

lemma sublist_uniform_code:
  assumes "length kind + length code \<le> 489"
  shows "sublist code (take 499 (uniform_format kind code msg))"
proof -
  let ?a = "''Invalid '' @ kind @ '': ''"
  let ?r = "[newline] @ ''Message: '' @ msg"
  have "length ?a + length code \<le> 499"
    using assms by simp
  then have "take 499 (?a @ code @ ?r) = ?a @ code @ take (499 - length ?a - length code) ?r"
    by (rule take_keep)
  moreover have "sublist code (?a @ code @ take (499 - length ?a - length code) ?r)"
    by (rule sublist_appendI)
  ultimately show ?thesis
    by (simp only: uniform_format_split)
qed

lemma sublist_uniform_msg:
  "sublist msg (uniform_format kind code msg)"
proof -
  have "sublist msg ((''Invalid '' @ kind @ '': '' @ code @ [newline] @ ''Message: '') @ msg @ [])"
    by (rule sublist_appendI)
  then show ?thesis by (simp add: uniform_format_def)
qed

text \<open>
  C4, as amended. \<^verbatim>\<open>EnsureTFOK\<close> returns true exactly when the status code is
  \<^verbatim>\<open>TF_OK\<close>, and then raises nothing. For every other code it returns false and raises
  one error whose message is the first 499 characters of
  \<^verbatim>\<open>"Invalid TF_Status: <code>\nMessage: <text>"\<close>: the message always contains the
  numeric code, and it is the whole text, so contains the runtime's message, whenever
  that message has at most 460 characters.
\<close>

theorem EnsureTFOK_raises:
  "(fst (EnsureTFOK env st file line_number) \<longleftrightarrow> TF_GetCode (status st) = TF_OK)
   \<and> (TF_GetCode (status st) = TF_OK \<longrightarrow> EnsureTFOK env st file line_number = (True, env))
   \<and> (TF_GetCode (status st) \<noteq> TF_OK \<longrightarrow>
        (\<exists>m. EnsureTFOK env st file line_number = (False, env\<lparr>thrown := thrown env @ [m]\<rparr>)
           \<and> m = take 499 (uniform_format ''TF_Status'' (fmt_u (unat (TF_GetCode (status st))))
                             (TF_Message (status st)))
           \<and> sublist (fmt_u (unat (TF_GetCode (status st)))) m
           \<and> (length (TF_Message (status st)) \<le> 460 \<longrightarrow>
                m = uniform_format ''TF_Status'' (fmt_u (unat (TF_GetCode (status st))))
                      (TF_Message (status st))
                \<and> sublist (TF_Message (status st)) m)))"
proof (intro conjI impI)
  show "fst (EnsureTFOK env st file line_number) \<longleftrightarrow> TF_GetCode (status st) = TF_OK"
    by (cases "TF_GetCode (status st) = TF_OK") (simp_all add: EnsureTFOK_ok EnsureTFOK_fail)
next
  assume "TF_GetCode (status st) = TF_OK"
  then show "EnsureTFOK env st file line_number = (True, env)"
    by (rule EnsureTFOK_ok)
next
  let ?code = "fmt_u (unat (TF_GetCode (status st)))"
  let ?m = "take 499 (uniform_format ''TF_Status'' ?code (TF_Message (status st)))"
  assume ne: "TF_GetCode (status st) \<noteq> TF_OK"
  have len: "length ?code \<le> 10"
    by (rule fmt_u_word32_length)
  have 1: "EnsureTFOK env st file line_number = (False, env\<lparr>thrown := thrown env @ [?m]\<rparr>)"
    by (rule EnsureTFOK_fail [OF ne])
  have 2: "sublist ?code ?m"
    using len by (intro sublist_uniform_code) simp
  have 3: "length (TF_Message (status st)) \<le> 460 \<longrightarrow>
             ?m = uniform_format ''TF_Status'' ?code (TF_Message (status st))
             \<and> sublist (TF_Message (status st)) ?m"
  proof
    assume "length (TF_Message (status st)) \<le> 460"
    with len have "?m = uniform_format ''TF_Status'' ?code (TF_Message (status st))"
      by (intro uniform_format_fits) simp
    then show "?m = uniform_format ''TF_Status'' ?code (TF_Message (status st))
             \<and> sublist (TF_Message (status st)) ?m"
      using sublist_uniform_msg [of "TF_Message (status st)" "''TF_Status''" ?code] by simp
  qed
  from 1 2 3 show "\<exists>m. EnsureTFOK env st file line_number = (False, env\<lparr>thrown := thrown env @ [m]\<rparr>)
           \<and> m = ?m \<and> sublist ?code m
           \<and> (length (TF_Message (status st)) \<le> 460 \<longrightarrow>
                m = uniform_format ''TF_Status'' ?code (TF_Message (status st))
                \<and> sublist (TF_Message (status st)) m)"
    by blast
qed

lemma short_status_facts:
  "TF_GetCode (status short_status) = 3" "TF_Message (status short_status) = ''bad shape''"
  "TF_GetCode (status short_status) \<noteq> TF_OK"
  by (simp_all add: short_status_def TF_GetCode_def TF_Message_def TF_OK_def)

lemma fmt_u_3: "fmt_u 3 = ''3''"
  by (simp add: fmt_u.simps digit_char_def)

theorem EnsureTFOK_raises_witness:
  "EnsureTFOK sample_env short_status ''binding/tfjs_backend.cc'' 1 =
     (False, sample_env\<lparr>thrown := [''Invalid TF_Status: 3'' @ [newline] @ ''Message: bad shape'']\<rparr>)"
proof -
  note t = EnsureTFOK_raises [of sample_env short_status "''binding/tfjs_backend.cc''" 1]
  from t short_status_facts(3) obtain m where
    m: "EnsureTFOK sample_env short_status ''binding/tfjs_backend.cc'' 1 =
          (False, sample_env\<lparr>thrown := thrown sample_env @ [m]\<rparr>)"
    and f: "length (TF_Message (status short_status)) \<le> 460 \<longrightarrow>
        m = uniform_format ''TF_Status'' (fmt_u (unat (TF_GetCode (status short_status))))
                      (TF_Message (status short_status))"
    by blast
  have "m = ''Invalid TF_Status: 3'' @ [newline] @ ''Message: bad shape''"
    using f by (simp add: short_status_facts fmt_u_3 uniform_format_def)
  with m show ?thesis
    by (simp add: thrown_sample_env)
qed

lemma long_status_facts:
  "TF_GetCode (status long_status) \<noteq> TF_OK" "length (TF_Message (status long_status)) = 500"
  by (simp_all add: long_status_def TF_GetCode_def TF_Message_def TF_OK_def)

text \<open>
  C4 as stated fails: for the non-OK status whose message has 500 characters, the raised
  message has at most 499 characters and so does not contain the runtime's message.
\<close>

theorem EnsureTFOK_truncates_message:
  "\<not> fst (EnsureTFOK sample_env long_status ''binding/tfjs_backend.cc'' 1)
   \<and> length (last (thrown (snd (EnsureTFOK sample_env long_status ''binding/tfjs_backend.cc'' 1)))) \<le> 499
   \<and> length (TF_Message (status long_status)) = 500
   \<and> \<not> sublist (TF_Message (status long_status))
          (last (thrown (snd (EnsureTFOK sample_env long_status ''binding/tfjs_backend.cc'' 1))))"
proof -
  let ?r = "EnsureTFOK sample_env long_status ''binding/tfjs_backend.cc'' 1"
  have r: "?r = (False, sample_env\<lparr>thrown := thrown sample_env @
          [take 499 (uniform_format ''TF_Status'' (fmt_u (unat (TF_GetCode (status long_status))))
                       (TF_Message (status long_status)))]\<rparr>)"
    by (rule EnsureTFOK_fail [OF long_status_facts(1)])
  have l: "length (last (thrown (snd ?r))) \<le> 499"
    unfolding r by simp
  have "\<not> sublist (TF_Message (status long_status)) (last (thrown (snd ?r)))"
  proof
    assume "sublist (TF_Message (status long_status)) (last (thrown (snd ?r)))"
    then have "length (TF_Message (status long_status)) \<le> length (last (thrown (snd ?r)))"
      by (rule sublist_length_le)
    with l long_status_facts(2) show False by simp
  qed
  with l long_status_facts(2) r show ?thesis by simp
qed


text \<open>
  C3, as amended. The two translators format differently. For a non-success boundary
  status \<^verbatim>\<open>EnsureNapiOK\<close> raises \<^verbatim>\<open>"Invalid napi_status: <message>\n"\<close>, where the
  message is the environment's last error message or \<^verbatim>\<open>"unknown"\<close>: no code and no
  \<^verbatim>\<open>Message:\<close> line. For a non-OK runtime status \<^verbatim>\<open>EnsureTFOK\<close> raises the uniform
  format \<^verbatim>\<open>"Invalid TF_Status: <code>\nMessage: <message>"\<close>. Both are cut to the 499
  characters the buffer holds.
\<close>

theorem status_translators_formats:
  "(nstatus \<noteq> napi_ok \<longrightarrow>
      EnsureNapiOK env nstatus file line_number =
        (False, env\<lparr>thrown := thrown env @
           [take 499 (''Invalid napi_status: ''
              @ (case last_error_message env of Some m \<Rightarrow> m | None \<Rightarrow> ''unknown'')
              @ [newline])]\<rparr>))
   \<and> (TF_GetCode (status st) \<noteq> TF_OK \<longrightarrow>
      EnsureTFOK env st file line_number =
        (False, env\<lparr>thrown := thrown env @
           [take 499 (uniform_format ''TF_Status'' (fmt_u (unat (TF_GetCode (status st))))
                        (TF_Message (status st)))]\<rparr>))"
  by (intro conjI impI) (erule EnsureNapiOK_fail, erule EnsureTFOK_fail)

theorem status_translators_formats_witness:
  "EnsureNapiOK sample_env napi_number_expected ''binding/utils.h'' 251 =
     (False, sample_env\<lparr>thrown := [''Invalid napi_status: A number was expected'' @ [newline]]\<rparr>)
   \<and> EnsureTFOK sample_env short_status ''binding/tfjs_backend.cc'' 1 =
     (False, sample_env\<lparr>thrown := [''Invalid TF_Status: 3'' @ [newline] @ ''Message: bad shape'']\<rparr>)"
proof -
  note t = status_translators_formats [of napi_number_expected sample_env "''binding/utils.h''" 251
      short_status]
  have n: "EnsureNapiOK sample_env napi_number_expected ''binding/utils.h'' 251 =
     (False, sample_env\<lparr>thrown := thrown sample_env @
           [take 499 (''Invalid napi_status: ''
              @ (case last_error_message sample_env of Some m \<Rightarrow> m | None \<Rightarrow> ''unknown'')
              @ [newline])]\<rparr>)"
    using t by simp
  have e: "last_error_message sample_env = Some ''A number was expected''"
    by (simp add: sample_env_def)
  have 1: "EnsureNapiOK sample_env napi_number_expected ''binding/utils.h'' 251 =
     (False, sample_env\<lparr>thrown := [''Invalid napi_status: A number was expected'' @ [newline]]\<rparr>)"
    unfolding n e by (simp add: thrown_sample_env)
  note t' = status_translators_formats [of napi_number_expected sample_env
      "''binding/tfjs_backend.cc''" 1 short_status]
  have "EnsureTFOK sample_env short_status ''binding/tfjs_backend.cc'' 1 =
        (False, sample_env\<lparr>thrown := thrown sample_env @
           [take 499 (uniform_format ''TF_Status'' (fmt_u (unat (TF_GetCode (status short_status))))
                        (TF_Message (status short_status)))]\<rparr>)"
    using t' short_status_facts(3) by blast
  then have 2: "EnsureTFOK sample_env short_status ''binding/tfjs_backend.cc'' 1 =
     (False, sample_env\<lparr>thrown := [''Invalid TF_Status: 3'' @ [newline] @ ''Message: bad shape'']\<rparr>)"
    by (simp add: short_status_facts fmt_u_3 uniform_format_def thrown_sample_env)
  from 1 2 show ?thesis by simp
qed

text \<open>
  C3 as stated fails: for the boundary status \<^verbatim>\<open>napi_number_expected\<close> the raised message
  is \<^verbatim>\<open>"Invalid napi_status: A number was expected\n"\<close>, which has no \<^verbatim>\<open>Message:\<close> line.
\<close>

theorem EnsureNapiOK_no_Message_line:
  "EnsureNapiOK sample_env napi_number_expected ''binding/utils.h'' 251 =
     (False, sample_env\<lparr>thrown := [''Invalid napi_status: A number was expected'' @ [newline]]\<rparr>)
   \<and> \<not> sublist ''Message:''
         (last (thrown (snd (EnsureNapiOK sample_env napi_number_expected ''binding/utils.h'' 251))))"
proof -
  have e: "last_error_message sample_env = Some ''A number was expected''"
    by (simp add: sample_env_def)
  have 1: "EnsureNapiOK sample_env napi_number_expected ''binding/utils.h'' 251 =
     (False, sample_env\<lparr>thrown := [''Invalid napi_status: A number was expected'' @ [newline]]\<rparr>)"
    by (simp add: EnsureNapiOK_fail e thrown_sample_env)
  have 2: "\<not> sublist ''Message:'' (''Invalid napi_status: A number was expected'' @ [newline])"
    by (simp add: newline_def sublist_code)
  from 1 2 show ?thesis by simp
qed


subsection \<open>\<^verbatim>\<open>GetStringParam\<close>\<close>

text \<open>
  C8. When the length query succeeds and the copy into the buffer fails,
  \<^verbatim>\<open>GetStringParam\<close> returns the failing status through \<^verbatim>\<open>ENSURE_NAPI_OK_RETVAL\<close>
  before it reaches \<^verbatim>\<open>free\<close>: the buffer of length + 1 = 4 bytes is still a live
  block of the heap. On the success path the same call frees it and yields the string.
\<close>

theorem GetStringParam_leaks_buffer:
  "GetStringParam copy_failing_env \<lparr>blocks = [], capacity = 100\<rparr> 1 '''' =
     (napi_generic_failure,
      copy_failing_env\<lparr>thrown := [''Invalid napi_status: A number was expected'' @ [newline]]\<rparr>,
      \<lparr>blocks = [(1, 4)], capacity = 96\<rparr>,
      '''')
   \<and> GetStringParam sample_env \<lparr>blocks = [], capacity = 100\<rparr> 1 '''' =
     (napi_ok, sample_env, \<lparr>blocks = [], capacity = 100\<rparr>, ''abc'')"
proof -
  have t: "napi_typeof copy_failing_env (Suc 0) = (napi_ok, napi_string)"
    "napi_typeof sample_env (Suc 0) = (napi_ok, napi_string)"
    by (simp_all add: copy_failing_env_def sample_env_def)
  have q: "napi_get_value_string_utf8 copy_failing_env (Suc 0) None = (napi_ok, [], 3)"
    "napi_get_value_string_utf8 copy_failing_env (Suc 0) (Some 4) = (napi_generic_failure, [], 0)"
    "napi_get_value_string_utf8 sample_env (Suc 0) None = (napi_ok, [], 3)"
    "napi_get_value_string_utf8 sample_env (Suc 0) (Some 4) = (napi_ok, ''abc'', 3)"
    by (simp_all add: copy_failing_env_def sample_env_def)
  have e: "last_error_message copy_failing_env = Some ''A number was expected''"
    "thrown copy_failing_env = []"
    by (simp_all add: copy_failing_env_def sample_env_def)
  have m: "malloc \<lparr>blocks = [], capacity = 100\<rparr> 4 = (Suc 0, \<lparr>blocks = [(Suc 0, 4)], capacity = 96\<rparr>)"
    by (simp add: malloc_def)
  have f: "free \<lparr>blocks = [(Suc 0, 4)], capacity = 96\<rparr> (Suc 0) = \<lparr>blocks = [], capacity = 100\<rparr>"
    by (simp add: free_def)
  have s: "EnsureValueIsString copy_failing_env (Suc 0) ''binding/utils.h'' 280 = (True, copy_failing_env)"
    "EnsureValueIsString sample_env (Suc 0) ''binding/utils.h'' 280 = (True, sample_env)"
    by (simp_all add: EnsureValueIsString_def t)
  have nn: "EnsureValueIsNotNull env (Suc 0) ''binding/utils.h'' 290 = (True, env)" for env
    by (simp add: EnsureValueIsNotNull_def nullptr_def)
  have 1: "GetStringParam copy_failing_env \<lparr>blocks = [], capacity = 100\<rparr> 1 '''' =
     (napi_generic_failure,
      copy_failing_env\<lparr>thrown := [''Invalid napi_status: A number was expected'' @ [newline]]\<rparr>,
      \<lparr>blocks = [(1, 4)], capacity = 96\<rparr>,
      '''')"
    by (simp add: GetStringParam_def s q m nn EnsureNapiOK_fail e)
  have 2: "GetStringParam sample_env \<lparr>blocks = [], capacity = 100\<rparr> 1 '''' =
     (napi_ok, sample_env, \<lparr>blocks = [], capacity = 100\<rparr>, ''abc'')"
    by (simp add: GetStringParam_def s q m nn f)
  from 1 2 show ?thesis by simp
qed


subsection \<open>Tensors\<close>

lemma bytes_int32_roundtrip:
  "bytes_int32 (ucast w) (ucast (drop_bit 8 w)) (ucast (drop_bit 16 w)) (ucast (drop_bit 24 w)) = w"
  for w :: "32 word"
  unfolding bytes_int32_def
proof (rule bit_word_eqI)
  fix n
  assume "n < LENGTH(32)"
  then show "bit (ucast (ucast w :: 8 word) OR push_bit 8 (ucast (ucast (drop_bit 8 w) :: 8 word))
        OR push_bit 16 (ucast (ucast (drop_bit 16 w) :: 8 word))
        OR push_bit 24 (ucast (ucast (drop_bit 24 w) :: 8 word)) :: 32 word) n = bit w n"
    by (cases "n < 8"; cases "n < 16"; cases "n < 24") (auto simp: bit_simps)
qed

lemma int32s_of_int32_bytes: "int32s_of_bytes (int32_array_bytes vs) = vs"
  by (induction vs) (simp_all add: int32_array_bytes_def int32_bytes_def bytes_int32_roundtrip)

lemma GetTensorNumElements_loop_done:
  "TF_NumDims t \<le> i \<Longrightarrow> GetTensorNumElements_loop t i ret = ret"
  by (subst GetTensorNumElements_loop.simps) simp

text \<open>
  C5. The tensor built by \<^verbatim>\<open>Int32Tensor(v)\<close> has rank 0, \<^verbatim>\<open>GetTensorNumElements\<close>
  counts exactly one element (the empty product), and its buffer holds the one
  \<^verbatim>\<open>int32_t\<close> value \<open>v\<close>.
\<close>

theorem Int32Tensor_scalar_one_element:
  "TF_NumDims (Int32Tensor_scalar v) = 0
   \<and> GetTensorNumElements (Int32Tensor_scalar v) = 1
   \<and> int32s_of_bytes (TF_TensorData (Int32Tensor_scalar v)) = [v]"
proof -
  have d: "tensor_dims (Int32Tensor_scalar v) = []"
    by (simp add: Int32Tensor_scalar_def TF_NewTensor_def)
  then have n: "TF_NumDims (Int32Tensor_scalar v) = 0"
    by (simp add: TF_NumDims_def)
  then have e: "GetTensorNumElements (Int32Tensor_scalar v) = 1"
    by (simp add: GetTensorNumElements_def GetTensorNumElements_loop_done)
  have "length (int32_array_bytes [v]) = 4"
    by (simp add: int32_array_bytes_def int32_bytes_def)
  then have "TF_TensorData (Int32Tensor_scalar v) = int32_array_bytes [v]"
    by (simp add: Int32Tensor_scalar_def TF_NewTensor_def TF_TensorData_def)
  then have "int32s_of_bytes (TF_TensorData (Int32Tensor_scalar v)) = [v]"
    by (simp only: int32s_of_int32_bytes)
  with n e show ?thesis by simp
qed


subsection \<open>\<^verbatim>\<open>ExtractArrayShape\<close>\<close>

lemma EnsureNapiOK_raise:
  "nstatus \<noteq> napi_ok \<Longrightarrow>
     EnsureNapiOK env nstatus file line_number = (False, raise_napi_failure env)"
  by (simp add: EnsureNapiOK_fail raise_napi_failure_def)

lemma word32_succ: "i < n \<Longrightarrow> unat (i + 1) = Suc (unat i)" for i n :: "32 word"
  by unat_arith

lemma loop_done:
  "\<not> i < array_length \<Longrightarrow> ExtractArrayShape_loop env a array_length i result = (env, result)"
  by (subst ExtractArrayShape_loop.simps) simp

lemma loop_step_ok:
  assumes "i < array_length" and "convertible env a i"
  shows "ExtractArrayShape_loop env a array_length i result =
           ExtractArrayShape_loop env a array_length (i + 1) (result @ [coerced env a i])"
proof -
  obtain e where e: "napi_get_element env a i = (napi_ok, e)"
    using assms(2) by (cases "napi_get_element env a i") (simp add: convertible_def)
  obtain d where d: "napi_get_value_int64 env e = (napi_ok, d)"
    using assms(2) e by (cases "napi_get_value_int64 env e") (simp add: convertible_def)
  have c: "coerced env a i = d"
    by (simp add: coerced_def e d)
  show ?thesis
    using assms(1) by (subst ExtractArrayShape_loop.simps) (simp add: e d c)
qed

lemma loop_step_fail:
  assumes "i < array_length" and "\<not> convertible env a i"
  shows "ExtractArrayShape_loop env a array_length i result = (raise_napi_failure env, result)"
proof (cases "fst (napi_get_element env a i) = napi_ok")
  case False
  then obtain s e where e: "napi_get_element env a i = (s, e)" and s: "s \<noteq> napi_ok"
    by (cases "napi_get_element env a i") auto
  show ?thesis
    using assms(1) by (subst ExtractArrayShape_loop.simps) (simp add: e EnsureNapiOK_raise [OF s])
next
  case True
  then obtain e where e: "napi_get_element env a i = (napi_ok, e)"
    by (cases "napi_get_element env a i") auto
  obtain s d where d: "napi_get_value_int64 env e = (s, d)" and s: "s \<noteq> napi_ok"
    using assms(2) e by (cases "napi_get_value_int64 env e") (auto simp: convertible_def)
  show ?thesis
    using assms(1)
    by (subst ExtractArrayShape_loop.simps) (simp add: e d EnsureNapiOK_raise [OF s])
qed

lemma loop_all_convertible:
  "i \<le> array_length \<Longrightarrow> (\<forall>j. i \<le> j \<and> j < array_length \<longrightarrow> convertible env a j) \<Longrightarrow>
     ExtractArrayShape_loop env a array_length i result =
       (env, result @ map (coerced env a) (map of_nat [unat i..<unat array_length]))"
proof (induction "unat array_length - unat i" arbitrary: i result)
  case 0
  then have "\<not> i < array_length"
    by (simp add: word_less_nat_alt)
  moreover have "unat array_length \<le> unat i"
    using 0 by simp
  ultimately show ?case
    by (simp add: loop_done)
next
  case (Suc d)
  then have lt: "i < array_length"
    by (simp add: word_less_nat_alt)
  have su: "unat (i + 1) = Suc (unat i)"
    by (rule word32_succ [OF lt])
  have le: "i + 1 \<le> array_length"
    using lt su by (simp add: word_le_nat_alt word_less_nat_alt)
  have d: "d = unat array_length - unat (i + 1)"
    using Suc.hyps(2) su by simp
  have conv: "\<forall>j. i + 1 \<le> j \<and> j < array_length \<longrightarrow> convertible env a j"
  proof (intro allI impI)
    fix j assume j: "i + 1 \<le> j \<and> j < array_length"
    then have "i \<le> j" using su by (simp add: word_le_nat_alt)
    with j Suc.prems(2) show "convertible env a j" by blast
  qed
  have ci: "convertible env a i"
    using Suc.prems(2) lt by simp
  have up: "[unat i..<unat array_length] = unat i # [Suc (unat i)..<unat array_length]"
    using lt by (simp add: word_less_nat_alt upt_conv_Cons)
  show ?case
    using Suc.hyps(1) [OF d le conv, of "result @ [coerced env a i]"]
    by (simp add: loop_step_ok [OF lt ci] su up)
qed

lemma loop_first_failure:
  "i \<le> k \<Longrightarrow> k < array_length \<Longrightarrow> (\<forall>j. i \<le> j \<and> j < k \<longrightarrow> convertible env a j) \<Longrightarrow>
     \<not> convertible env a k \<Longrightarrow>
     ExtractArrayShape_loop env a array_length i result =
       (raise_napi_failure env, result @ map (coerced env a) (map of_nat [unat i..<unat k]))"
proof (induction "unat k - unat i" arbitrary: i result)
  case 0
  then have "unat i = unat k"
    by (simp add: word_le_nat_alt)
  then have ik: "i = k"
    by (simp add: word_unat_eq_iff)
  show ?case
    using 0 by (simp add: ik loop_step_fail)
next
  case (Suc d)
  then have lt: "i < k"
    by (simp add: word_less_nat_alt)
  then have lta: "i < array_length"
    using Suc.prems(2) by simp
  have su: "unat (i + 1) = Suc (unat i)"
    by (rule word32_succ [OF lt])
  have le: "i + 1 \<le> k"
    using lt su by (simp add: word_le_nat_alt word_less_nat_alt)
  have d: "d = unat k - unat (i + 1)"
    using Suc.hyps(2) su by simp
  have conv: "\<forall>j. i + 1 \<le> j \<and> j < k \<longrightarrow> convertible env a j"
  proof (intro allI impI)
    fix j assume j: "i + 1 \<le> j \<and> j < k"
    then have "i \<le> j" using su by (simp add: word_le_nat_alt)
    with j Suc.prems(3) show "convertible env a j" by blast
  qed
  have ci: "convertible env a i"
    using Suc.prems(3) lt by simp
  have up: "[unat i..<unat k] = unat i # [Suc (unat i)..<unat k]"
    using lt by (simp add: word_less_nat_alt upt_conv_Cons)
  show ?case
    using Suc.hyps(1) [OF d le Suc.prems(2) conv Suc.prems(4), of "result @ [coerced env a i]"]
    by (simp add: loop_step_ok [OF lta ci] su up)
qed


lemma indices_length: "length (map f (indices n)) = n"
  by (simp add: indices_def)

lemma indices_nth:
  "i < array_length \<Longrightarrow> map f (indices (unat array_length)) ! unat i = f i"
  for i array_length :: "32 word"
  by (simp add: indices_def word_less_nat_alt)

text \<open>
  C2. Let the array's length query succeed with \<open>n\<close>. If every element converts, the
  call raises nothing and appends to the vector exactly \<open>n\<close> values, the \<open>i\<close>-th being
  element \<open>i\<close> coerced to a 64-bit integer. If element \<open>k\<close> is the first that fails (its
  fetch or its numeric conversion), the call raises the boundary failure and returns with
  exactly the \<open>k\<close> values extracted before it appended. If the length query itself
  fails, the failure is raised and the vector is untouched.
\<close>

theorem ExtractArrayShape_elements:
  "(napi_get_array_length env a = (napi_ok, n) \<and> (\<forall>i<n. convertible env a i) \<longrightarrow>
      ExtractArrayShape env a result = (env, result @ map (coerced env a) (indices (unat n))))
   \<and> length (map (coerced env a) (indices (unat n))) = unat n
   \<and> (\<forall>i<n. map (coerced env a) (indices (unat n)) ! unat i = coerced env a i)
   \<and> (napi_get_array_length env a = (napi_ok, n) \<and> k < n
        \<and> (\<forall>i<k. convertible env a i) \<and> \<not> convertible env a k \<longrightarrow>
      ExtractArrayShape env a result =
        (raise_napi_failure env, result @ map (coerced env a) (indices (unat k))))
   \<and> (fst (napi_get_array_length env a) \<noteq> napi_ok \<longrightarrow>
      ExtractArrayShape env a result = (raise_napi_failure env, result))"
proof (intro conjI impI)
  assume h: "napi_get_array_length env a = (napi_ok, n) \<and> (\<forall>i<n. convertible env a i)"
  then have "ExtractArrayShape_loop env a n 0 result =
      (env, result @ map (coerced env a) (map of_nat [unat (0 :: 32 word)..<unat n]))"
    by (intro loop_all_convertible) simp_all
  then show "ExtractArrayShape env a result =
      (env, result @ map (coerced env a) (indices (unat n)))"
    using h by (simp add: ExtractArrayShape_def indices_def)
next
  show "length (map (coerced env a) (indices (unat n))) = unat n"
    by (rule indices_length)
next
  show "\<forall>i<n. map (coerced env a) (indices (unat n)) ! unat i = coerced env a i"
    by (simp add: indices_nth)
next
  assume h: "napi_get_array_length env a = (napi_ok, n) \<and> k < n
        \<and> (\<forall>i<k. convertible env a i) \<and> \<not> convertible env a k"
  then have "ExtractArrayShape_loop env a n 0 result =
      (raise_napi_failure env,
       result @ map (coerced env a) (map of_nat [unat (0 :: 32 word)..<unat k]))"
    by (intro loop_first_failure) simp_all
  then show "ExtractArrayShape env a result =
      (raise_napi_failure env, result @ map (coerced env a) (indices (unat k)))"
    using h by (simp add: ExtractArrayShape_def indices_def)
next
  assume "fst (napi_get_array_length env a) \<noteq> napi_ok"
  then obtain s l where "napi_get_array_length env a = (s, l)" and "s \<noteq> napi_ok"
    by (cases "napi_get_array_length env a") auto
  then show "ExtractArrayShape env a result = (raise_napi_failure env, result)"
    by (simp add: ExtractArrayShape_def EnsureNapiOK_raise)
qed

lemma word32_less_2: "i < 2 \<Longrightarrow> i = 0 \<or> i = 1" for i :: "32 word"
  by unat_arith

lemma word32_less_1: "i < 1 \<Longrightarrow> i = 0" for i :: "32 word"
  by unat_arith

lemma sample_env_elements:
  "convertible sample_env 2 0" "convertible sample_env 2 1"
  "convertible sample_env 3 0" "\<not> convertible sample_env 3 1"
  "coerced sample_env 2 0 = 2" "coerced sample_env 2 1 = 3" "coerced sample_env 3 0 = 2"
  by (simp_all add: convertible_def coerced_def sample_env_def)

theorem ExtractArrayShape_elements_witness:
  "ExtractArrayShape sample_env 2 [] = (sample_env, [2, 3])
   \<and> ExtractArrayShape sample_env 3 [] =
       (sample_env\<lparr>thrown := [''Invalid napi_status: A number was expected'' @ [newline]]\<rparr>, [2])
   \<and> ExtractArrayShape sample_env 4 [] =
       (sample_env\<lparr>thrown := [''Invalid napi_status: A number was expected'' @ [newline]]\<rparr>, [])"
proof -
  have r: "raise_napi_failure sample_env =
      sample_env\<lparr>thrown := [''Invalid napi_status: A number was expected'' @ [newline]]\<rparr>"
    by (simp add: raise_napi_failure_def sample_env_def)
  have i2: "indices 2 = [0, 1]" and i1: "indices (Suc 0) = [0]"
    by (simp_all add: indices_def upt_rec)
  have l2: "napi_get_array_length sample_env 2 = (napi_ok, 2)"
    and l3: "napi_get_array_length sample_env 3 = (napi_ok, 3)"
    and l4: "fst (napi_get_array_length sample_env 4) \<noteq> napi_ok"
    by (simp_all add: sample_env_def)
  have c2: "\<forall>i<2. convertible sample_env 2 i"
    using sample_env_elements(1,2) word32_less_2 by blast
  have c3: "\<forall>i<1. convertible sample_env 3 i"
    using sample_env_elements(3) word32_less_1 by blast
  have k: "(1 :: 32 word) < 3"
    by simp
  have "ExtractArrayShape sample_env 2 [] =
      (sample_env, [] @ map (coerced sample_env 2) (indices (unat (2 :: 32 word))))"
    using ExtractArrayShape_elements [of sample_env 2 2 "[]" 0] l2 c2 by blast
  then have 1: "ExtractArrayShape sample_env 2 [] = (sample_env, [2, 3])"
    by (simp add: i2 sample_env_elements)
  have "ExtractArrayShape sample_env 3 [] =
      (raise_napi_failure sample_env,
       [] @ map (coerced sample_env 3) (indices (unat (1 :: 32 word))))"
    using ExtractArrayShape_elements [of sample_env 3 3 "[]" 1] l3 c3 k sample_env_elements(4)
    by blast
  then have 2: "ExtractArrayShape sample_env 3 [] =
       (sample_env\<lparr>thrown := [''Invalid napi_status: A number was expected'' @ [newline]]\<rparr>, [2])"
    by (simp add: i1 r sample_env_elements)
  have "ExtractArrayShape sample_env 4 [] = (raise_napi_failure sample_env, [])"
    using ExtractArrayShape_elements [of sample_env 4 0 "[]" 0] l4 by blast
  then have 3: "ExtractArrayShape sample_env 4 [] =
       (sample_env\<lparr>thrown := [''Invalid napi_status: A number was expected'' @ [newline]]\<rparr>, [])"
    by (simp add: r)
  from 1 2 3 show ?thesis by simp
qed


lemma Int32Tensor_loop_prod:
  "i \<le> length dims \<Longrightarrow>
     Int32Tensor_loop dims (int (length dims)) (int i) acc = Some (acc * prod_list (drop i dims))"
proof (induction "length dims - i" arbitrary: i acc)
  case 0
  then have "i = length dims" by simp
  then show ?case
    by (subst Int32Tensor_loop.simps) simp
next
  case (Suc d)
  then have lt: "i < length dims" by simp
  have d: "d = length dims - Suc i" using Suc.hyps(2) by simp
  have le: "Suc i \<le> length dims" using lt by simp
  have dr: "drop i dims = dims ! i # drop (Suc i) dims"
    using lt by (simp add: Cons_nth_drop_Suc)
  have "Int32Tensor_loop dims (int (length dims)) (int i) acc =
          Int32Tensor_loop dims (int (length dims)) (int (Suc i)) (acc * dims ! i)"
    using lt by (subst Int32Tensor_loop.simps) (simp add: add.commute)
  also have "\<dots> = Some (acc * dims ! i * prod_list (drop (Suc i) dims))"
    by (rule Suc.hyps(1) [OF d le])
  finally show ?case
    by (simp add: dr mult.assoc)
qed

lemma GetTensorNumElements_loop_prod:
  "i \<le> length (tensor_dims t) \<Longrightarrow>
     GetTensorNumElements_loop t (int i) acc = acc * prod_list (drop i (tensor_dims t))"
proof (induction "length (tensor_dims t) - i" arbitrary: i acc)
  case 0
  then have "i = length (tensor_dims t)" by simp
  then show ?case
    by (subst GetTensorNumElements_loop.simps) (simp add: TF_NumDims_def)
next
  case (Suc d)
  then have lt: "i < length (tensor_dims t)" by simp
  have d: "d = length (tensor_dims t) - Suc i" using Suc.hyps(2) by simp
  have le: "Suc i \<le> length (tensor_dims t)" using lt by simp
  have dr: "drop i (tensor_dims t) = tensor_dims t ! i # drop (Suc i) (tensor_dims t)"
    using lt by (simp add: Cons_nth_drop_Suc)
  have "GetTensorNumElements_loop t (int i) acc =
          GetTensorNumElements_loop t (int (Suc i)) (acc * tensor_dims t ! i)"
    using lt by (subst GetTensorNumElements_loop.simps) (simp add: TF_NumDims_def TF_Dim_def add.commute)
  also have "\<dots> = acc * tensor_dims t ! i * prod_list (drop (Suc i) (tensor_dims t))"
    by (rule Suc.hyps(1) [OF d le])
  finally show ?case
    by (simp add: dr mult.assoc)
qed

lemma GetTensorNumElements_prod:
  "GetTensorNumElements t = prod_list (tensor_dims t)"
  using GetTensorNumElements_loop_prod [of 0 t 1] by (simp add: GetTensorNumElements_def)

lemma word_prod_list_sint:
  "prod_list dims = (word_of_int (prod_list (map sint dims)) :: 64 word)"
  by (induction dims) simp_all

lemma unat_word_of_int:
  "0 \<le> k \<Longrightarrow> k < 2 ^ 64 \<Longrightarrow> unat (word_of_int k :: 64 word) = nat k"
  by (simp add: unat_eq_nat_uint uint_word_of_int del: nat_uint_eq)

lemma prod_list_sint_nonneg:
  "\<forall>d \<in> set dims. 0 \<le> sint d \<Longrightarrow> 0 \<le> prod_list (map sint dims)"
  by (induction dims) simp_all

lemma prod_list_sint_zero:
  "(0 :: 64 word) \<in> set dims \<Longrightarrow> prod_list (map sint dims) = 0"
  by (induction dims) auto

lemma take_int32_array_bytes:
  "take (4 * n) (int32_array_bytes vs) = int32_array_bytes (take n vs)"
proof (induction vs arbitrary: n)
  case Nil
  show ?case by (simp add: int32_array_bytes_def)
next
  case (Cons v vs)
  show ?case
  proof (cases n)
    case 0
    then show ?thesis by (simp add: int32_array_bytes_def)
  next
    case (Suc m)
    have l: "length (int32_bytes v) = 4"
      by (simp add: int32_bytes_def)
    have "take (4 * Suc m) (int32_bytes v @ int32_array_bytes vs) =
            int32_bytes v @ take (4 * m) (int32_array_bytes vs)"
      using l by simp
    then show ?thesis
      using Cons [of m] Suc by (simp add: int32_array_bytes_def)
  qed
qed

lemma length_int32_array_bytes: "length (int32_array_bytes vs) = 4 * length vs"
  by (induction vs) (simp_all add: int32_array_bytes_def int32_bytes_def)


text \<open>
  C1. Let every dimension be non-negative, let \<open>P\<close> be the product of the dimensions, and
  let the caller supply at least \<open>P\<close> values, in an array that is a C object (its size in
  bytes fits \<^verbatim>\<open>size_t\<close>). Then \<^verbatim>\<open>Int32Tensor(dims, num_dims, values)\<close> returns a tensor
  with these dimensions, \<^verbatim>\<open>GetTensorNumElements\<close> counts exactly \<open>P\<close> elements, and the
  buffer read back as \<^verbatim>\<open>int32_t\<close> is the first \<open>P\<close> supplied values in order. When some
  dimension is zero the tensor is still returned, with zero elements and an empty buffer.
\<close>

theorem Int32Tensor_roundtrip:
  assumes nonneg: "\<forall>d \<in> set dims. 0 \<le> sint d"
    and P: "P = nat (prod_list (map sint dims))"
    and enough: "P \<le> length values"
    and fits: "4 * length values < 2 ^ 64"
  shows "\<exists>t. Int32Tensor dims (int (length dims)) values = Some t
           \<and> tensor_dims t = dims
           \<and> unat (GetTensorNumElements t) = P
           \<and> int32s_of_bytes (TF_TensorData t) = take P values
           \<and> (0 \<in> set dims \<longrightarrow> GetTensorNumElements t = 0 \<and> TF_TensorData t = [])"
proof -
  let ?k = "prod_list (map sint dims)"
  have k0: "0 \<le> ?k"
    by (rule prod_list_sint_nonneg [OF nonneg])
  have kP: "?k = int P"
    using P k0 by simp
  have P4: "4 * P < 2 ^ 64"
    using enough fits by simp
  have loop: "Int32Tensor_loop dims (int (length dims)) 0 1 = Some (word_of_int ?k)"
    using Int32Tensor_loop_prod [of 0 dims 1] by (simp add: word_prod_list_sint [symmetric])
  have "4 * (word_of_int ?k :: 64 word) = word_of_int (4 * ?k)"
    by simp
  moreover have "unat (word_of_int (4 * ?k) :: 64 word) = nat (4 * ?k)"
    using P4 kP by (intro unat_word_of_int) simp_all
  ultimately have len: "unat (4 * (word_of_int ?k :: 64 word)) = 4 * P"
    using kP by simp
  let ?t0 = "TF_AllocateTensor TF_INT32 dims (int (length dims)) (4 * P)"
  have data0: "TF_TensorData ?t0 = replicate (4 * P) 0"
    by (simp add: TF_AllocateTensor_def TF_TensorData_def)
  have "4 * P \<le> length (int32_array_bytes values)"
    using enough by (simp add: length_int32_array_bytes)
  then have cp: "memcpy (TF_TensorData ?t0) (int32_array_bytes values) (4 * P) =
      Some (int32_array_bytes (take P values))"
    by (simp add: memcpy_def data0 take_int32_array_bytes)
  let ?t = "?t0\<lparr>tensor_data := int32_array_bytes (take P values)\<rparr>"
  have res: "Int32Tensor dims (int (length dims)) values = Some ?t"
    by (simp add: Int32Tensor_def loop len cp Let_def)
  have dims: "tensor_dims ?t = dims"
    by (simp add: TF_AllocateTensor_def)
  have "GetTensorNumElements ?t = word_of_int ?k"
    by (simp add: GetTensorNumElements_prod dims word_prod_list_sint [symmetric])
  moreover have "unat (word_of_int ?k :: 64 word) = nat ?k"
    using k0 kP P4 by (intro unat_word_of_int) simp_all
  ultimately have n: "unat (GetTensorNumElements ?t) = P"
    using P by simp
  have dat: "TF_TensorData ?t = int32_array_bytes (take P values)"
    by (simp add: TF_TensorData_def)
  then have rd: "int32s_of_bytes (TF_TensorData ?t) = take P values"
    by (simp only: int32s_of_int32_bytes)
  have z: "0 \<in> set dims \<longrightarrow> GetTensorNumElements ?t = 0 \<and> TF_TensorData ?t = []"
  proof
    assume "0 \<in> set dims"
    then have "P = 0"
      using P by (simp add: prod_list_sint_zero)
    with n dat show "GetTensorNumElements ?t = 0 \<and> TF_TensorData ?t = []"
      by (simp add: int32_array_bytes_def unat_eq_0)
  qed
  from res dims n rd z show ?thesis
    by blast
qed

theorem Int32Tensor_roundtrip_witness:
  "(\<exists>t. Int32Tensor [2, 2] 2 [10, 20, 30, 40, 50] = Some t
        \<and> unat (GetTensorNumElements t) = 4
        \<and> int32s_of_bytes (TF_TensorData t) = [10, 20, 30, 40])
   \<and> (\<exists>t. Int32Tensor [3, 0] 2 [] = Some t
        \<and> GetTensorNumElements t = 0 \<and> TF_TensorData t = [])"
proof -
  have a: "\<forall>d \<in> set [2, 2 :: 64 word]. 0 \<le> sint d"
    by simp
  have b: "(4 :: nat) = nat (prod_list (map sint [2, 2 :: 64 word]))"
    by simp
  have c: "(4 :: nat) \<le> length [10, 20, 30, 40, 50 :: 32 word]"
    "4 * length [10, 20, 30, 40, 50 :: 32 word] < 2 ^ 64"
    by simp_all
  have 1: "\<exists>t. Int32Tensor [2, 2] 2 [10, 20, 30, 40, 50] = Some t
        \<and> unat (GetTensorNumElements t) = 4
        \<and> int32s_of_bytes (TF_TensorData t) = [10, 20, 30, 40]"
    using Int32Tensor_roundtrip [OF a b c] by auto
  have a': "\<forall>d \<in> set [3, 0 :: 64 word]. 0 \<le> sint d"
    by simp
  have b': "(0 :: nat) = nat (prod_list (map sint [3, 0 :: 64 word]))"
    by simp
  have c': "(0 :: nat) \<le> length ([] :: 32 word list)"
    "4 * length ([] :: 32 word list) < 2 ^ 64"
    by simp_all
  have 2: "\<exists>t. Int32Tensor [3, 0] 2 [] = Some t
        \<and> GetTensorNumElements t = 0 \<and> TF_TensorData t = []"
    using Int32Tensor_roundtrip [OF a' b' c'] by auto
  from 1 2 show ?thesis by (rule conjI)
qed


end
